(* ===== verification/Prelude.thy ===== *)
theory Prelude
  imports Complex_Main "HOL-Library.AList"
begin

text \<open>
  The JavaScript primitives that the sources of \<^verbatim>\<open>src/lib\<close> rely on, shared by every
  component theory: the Number type with its non-finite values, the truthiness test
  \<^verbatim>\<open>!x\<close>, the relational and strict-equality operators on numbers, division by a
  positive constant, \<^verbatim>\<open>ToIntegerOrInfinity\<close>, the exceptions the code can raise, and
  generic list lemmas.

  A finite JavaScript number is an IEEE binary64 value; every such value is a rational
  number, and the model keeps it as that exact rational (\<open>Num q\<close>). The only arithmetic
  the sources perform on numbers is the division by 1024 in \<^verbatim>\<open>toMetric\<close>, applied to
  values above 1000: a division by a power of two of a normal binary64 value is exact, so
  the rational model computes exactly what the engine computes. Negative zero is not
  distinguished from zero: every operation modelled here treats them alike.
\<close>

named_theorems js_simps "evaluation rules of the modelled JavaScript primitives"

section \<open>Numbers\<close>

datatype js_number = Num rat | NaN | PosInf | NegInf

type_synonym dom_string = string

text \<open>\<^verbatim>\<open>ToBoolean\<close> on a number: \<^verbatim>\<open>0\<close>, \<^verbatim>\<open>-0\<close> and \<^verbatim>\<open>NaN\<close> are falsy.\<close>

fun js_truthy :: "js_number \<Rightarrow> bool" where
  "js_truthy (Num q) = (q \<noteq> 0)"
| "js_truthy NaN = False"
| "js_truthy PosInf = True"
| "js_truthy NegInf = True"

text \<open>
  \<^verbatim>\<open>IsLessThan\<close> on two numbers (ECMAScript, Number::lessThan): any comparison with
  \<^verbatim>\<open>NaN\<close> is false; \<^verbatim>\<open>-Infinity\<close> is below and \<^verbatim>\<open>+Infinity\<close> above every other
  value. The equations are tried in order.
\<close>

fun js_less :: "js_number \<Rightarrow> js_number \<Rightarrow> bool" where
  "js_less NaN y = False"
| "js_less x NaN = False"
| "js_less (Num a) (Num b) = (a < b)"
| "js_less NegInf y = (y \<noteq> NegInf)"
| "js_less x PosInf = (x \<noteq> PosInf)"
| "js_less x y = False"

text \<open>\<^verbatim>\<open>a > b\<close> is \<^verbatim>\<open>IsLessThan(b, a)\<close>.\<close>

definition js_gt :: "js_number \<Rightarrow> js_number \<Rightarrow> bool" where
  "js_gt a b = js_less b a"

text \<open>\<^verbatim>\<open>===\<close> on two numbers (Number::equal): \<^verbatim>\<open>NaN\<close> equals nothing.\<close>

fun js_eq :: "js_number \<Rightarrow> js_number \<Rightarrow> bool" where
  "js_eq (Num a) (Num b) = (a = b)"
| "js_eq PosInf PosInf = True"
| "js_eq NegInf NegInf = True"
| "js_eq x y = False"

text \<open>
  Division by a positive finite constant \<open>d\<close> (Number::divide): \<^verbatim>\<open>NaN\<close> and the
  infinities are kept, a finite value is divided.
\<close>

fun js_div_pos :: "js_number \<Rightarrow> rat \<Rightarrow> js_number" where
  "js_div_pos (Num q) d = Num (q / d)"
| "js_div_pos x d = x"

text \<open>
  \<^verbatim>\<open>ToIntegerOrInfinity\<close>: \<^verbatim>\<open>NaN\<close> becomes 0, a finite value is truncated towards
  zero, an infinity stays infinite (\<open>None\<close>).
\<close>

fun js_to_integer :: "js_number \<Rightarrow> int option" where
  "js_to_integer (Num q) = Some (if 0 \<le> q then \<lfloor>q\<rfloor> else - \<lfloor>- q\<rfloor>)"
| "js_to_integer NaN = Some 0"
| "js_to_integer PosInf = None"
| "js_to_integer NegInf = None"

section \<open>Exceptions\<close>

datatype js_error = RangeError | TypeError

section \<open>Shared lemmas\<close>

lemma js_gt_Num [simp, js_simps]: "js_gt (Num a) (Num b) \<longleftrightarrow> b < a"
  by (simp add: js_gt_def)

lemma js_gt_PosInf_Num [simp, js_simps]: "js_gt PosInf (Num b)"
  by (simp add: js_gt_def)

lemma js_gt_NaN [simp, js_simps]: "\<not> js_gt NaN y" "\<not> js_gt x NaN"
   by (cases y; simp add: js_gt_def) (simp add: js_gt_def)

lemma js_gt_NegInf [simp, js_simps]: "\<not> js_gt NegInf y"
  by (cases y) (simp_all add: js_gt_def)

lemma js_gt_Num_PosInf [simp, js_simps]: "\<not> js_gt (Num a) PosInf"
  by (simp add: js_gt_def)

lemma js_to_integer_nonneg [simp, js_simps]:
  "0 \<le> q \<Longrightarrow> js_to_integer (Num q) = Some \<lfloor>q\<rfloor>"
  by simp

lemma js_to_integer_of_int [simp, js_simps]:
  "js_to_integer (Num (of_int i)) = Some i"
  by simp

text \<open>
  A nat-valued length compared with a rational bound: \<open>L > q\<close> holds exactly when
  \<open>L > \<lfloor>q\<rfloor>\<close>, since \<open>L\<close> is an integer.
\<close>

lemma nat_gt_rat_iff_floor: "(q < of_nat L) \<longleftrightarrow> (\<lfloor>q\<rfloor> < int L)"
  by (metis floor_less_iff of_int_of_nat_eq)

lemma floor_numeral_div_numeral [simp, js_simps]:
  "\<lfloor>(numeral a :: rat) / numeral b\<rfloor> = numeral a div numeral b"
  using floor_divide_of_int_eq [of "numeral a" "numeral b", where 'a = rat] by simp

lemma drop_append_single_length:
  "n \<le> length xs + 1 \<Longrightarrow> length (drop (length xs + 1 - n) (xs @ [x])) = n"
  by simp

end
