(* ===== verification/NumberFormat.thy ===== *)
theory NumberFormat
  imports Prelude
begin

text \<open>
  \<^verbatim>\<open>Number.prototype.toFixed\<close> as ECMAScript (sec-number.prototype.tofixed)
  specifies it, the engine primitive that \<^verbatim>\<open>toMetric\<close> (\<^verbatim>\<open>src/lib/utils.ts\<close>) calls
  to print the scaled byte count. Its steps are kept: the fraction-digit count is converted
  by \<^verbatim>\<open>ToIntegerOrInfinity\<close> and must lie in 0..100 (else \<^verbatim>\<open>RangeError\<close>); a
  non-finite value prints as \<^verbatim>\<open>NaN\<close>, \<^verbatim>\<open>Infinity\<close> or \<^verbatim>\<open>-Infinity\<close>; a
  negative value gets a \<^verbatim>\<open>-\<close> prefix; the magnitude is rounded to the integer
  \<open>n\<close> nearest \<open>x * 10^f\<close>, ties to the larger, and printed with \<open>f\<close> digits after
  the point, zero-padded on the left.

  A magnitude of at least \<open>10^21\<close> is printed by \<^verbatim>\<open>Number::toString\<close> instead, whose
  shortest-round-trip digit choice depends on the binary64 neighbours of the value; that
  primitive is a parameter \<open>num_to_string\<close> of the model. \<^verbatim>\<open>toMetric\<close> reaches it only
  for byte counts at or below \<open>-10^21\<close>.
\<close>

definition digit_char :: "nat \<Rightarrow> char" where
  "digit_char d = ''0123456789'' ! d"

text \<open>The decimal representation of a natural number, most significant digit first.\<close>

fun dec_digits :: "nat \<Rightarrow> string" where
  "dec_digits n =
     (if n < 10 then [digit_char n] else dec_digits (n div 10) @ [digit_char (n mod 10)])"

declare dec_digits.simps [simp del]

text \<open>Step 11 of \<^verbatim>\<open>toFixed\<close>: the digits of \<open>n\<close> with a point before the last \<open>f\<close>.\<close>

definition fixed_point_string :: "nat \<Rightarrow> nat \<Rightarrow> string" where
  "fixed_point_string n f =
     (let m = dec_digits n in
      if f = 0 then m
      else
        let m' = (if length m \<le> f then replicate (f + 1 - length m) (CHR ''0'') @ m else m);
            k = length m'
        in take (k - f) m' @ ''.'' @ drop (k - f) m')"

text \<open>The integer \<open>n\<close> for which \<open>n / 10^f - x\<close> is closest to zero, the larger on a tie.\<close>

definition round_fixed :: "rat \<Rightarrow> nat \<Rightarrow> nat" where
  "round_fixed x f = nat \<lfloor>x * 10 ^ f + 1 / 2\<rfloor>"

definition js_to_fixed :: "(rat \<Rightarrow> string) \<Rightarrow> js_number \<Rightarrow> js_number \<Rightarrow> js_error + string" where
  "js_to_fixed num_to_string x fractionDigits =
     (case js_to_integer fractionDigits of
        None \<Rightarrow> Inl RangeError
      | Some f \<Rightarrow>
          if f < 0 \<or> 100 < f then Inl RangeError
          else (case x of
                  NaN \<Rightarrow> Inr ''NaN''
                | PosInf \<Rightarrow> Inr ''Infinity''
                | NegInf \<Rightarrow> Inr ''-Infinity''
                | Num q \<Rightarrow>
                    (let s = (if q < 0 then ''-'' else ''''); a = \<bar>q\<bar> in
                     Inr (s @ (if 10 ^ 21 \<le> a then num_to_string a
                               else fixed_point_string (round_fixed a (nat f)) (nat f))))))"

text \<open>Reading a digit string back, most significant digit first.\<close>

fun digits_value :: "string \<Rightarrow> nat" where
  "digits_value [] = 0"
| "digits_value (c # cs) = (of_char c - 48) * 10 ^ length cs + digits_value cs"

text \<open>A decimal digit character.\<close>

definition is_digit :: "char \<Rightarrow> bool" where
  "is_digit c = (c \<in> set ''0123456789'')"

lemma digits_value_append [simp]:
  "digits_value (xs @ ys) = digits_value xs * 10 ^ length ys + digits_value ys"
  by (induction xs) (simp_all add: algebra_simps power_add)

lemma digit_char_value [simp]: "d < 10 \<Longrightarrow> of_char (digit_char d) - 48 = d"
  by (simp add: digit_char_def numeral_eq_Suc less_Suc_eq; elim disjE; simp)

lemma dec_digits_nonempty [simp]: "dec_digits n \<noteq> []"
  by (subst dec_digits.simps) simp

lemma digit_char_is_digit: "d < 10 \<Longrightarrow> is_digit (digit_char d)"
  unfolding is_digit_def digit_char_def by (rule nth_mem) simp

lemma digits_value_dec_digits [simp]: "digits_value (dec_digits n) = n"
proof (induction n rule: dec_digits.induct)
  case (1 n)
  show ?case
  proof (cases "n < 10")
    case True
    then show ?thesis by (subst dec_digits.simps) simp
  next
    case False
    then have "digits_value (dec_digits n) = n div 10 * 10 + n mod 10"
      using 1 by (subst dec_digits.simps) simp
    then show ?thesis by simp
  qed
qed

lemma dec_digits_digits: "c \<in> set (dec_digits n) \<Longrightarrow> is_digit c"
proof (induction n rule: dec_digits.induct)
  case (1 n)
  from "1.prems" show ?case
    by (subst (asm) dec_digits.simps)
       (auto simp: digit_char_is_digit "1.IH" split: if_splits)
qed

lemma digits_value_zeros [simp]: "digits_value (replicate r (CHR ''0'')) = 0"
  by (induction r) simp_all

lemma fixed_point_string_split:
  "\<exists>ip fp. fixed_point_string n f = ip @ (if f = 0 then [] else ''.'' @ fp) \<and> ip \<noteq> [] \<and>
     length fp = f \<and> (\<forall>c\<in>set (ip @ fp). is_digit c) \<and> digits_value (ip @ fp) = n"
proof (cases "f = 0")
  case True
  then show ?thesis
    by (intro exI [of _ "dec_digits n"] exI [of _ "[]"]) (simp add: fixed_point_string_def dec_digits_digits)
next
  case False
  define m where "m = dec_digits n"
  define m' where "m' = (if length m \<le> f then replicate (f + 1 - length m) (CHR ''0'') @ m else m)"
  have len: "f < length m'" by (simp add: m'_def)
  have val: "digits_value m' = n" by (simp add: m'_def m_def)
  have "is_digit (CHR ''0'')" by (simp add: is_digit_def)
  then have dig: "\<forall>c\<in>set m'. is_digit c"
    by (auto simp: m'_def m_def dec_digits_digits)
  have eq: "fixed_point_string n f = take (length m' - f) m' @ ''.'' @ drop (length m' - f) m'"
    using False by (simp add: fixed_point_string_def Let_def m_def m'_def)
  show ?thesis
    using False len val dig
    by (intro exI [of _ "take (length m' - f) m'"] exI [of _ "drop (length m' - f) m'"])
       (auto simp: eq dest: in_set_takeD in_set_dropD)
qed

end
