(* ===== verification/Utils.thy ===== *)
theory Utils
  imports NumberFormat
begin

text \<open>
  The pure helpers of \<^verbatim>\<open>src/lib/utils.ts\<close>: \<^verbatim>\<open>toMetric\<close> (byte counts for display),
  \<^verbatim>\<open>calcStrokeWidth\<close> (ring-gauge stroke widths) and \<^verbatim>\<open>saturatedPush\<close> (the bounded
  sample window). Both loops of the file are \<^theory_text>\<open>partial_function (option)\<close>:
  each of them runs forever on some inputs (\<^verbatim>\<open>toMetric(Infinity)\<close>,
  \<^verbatim>\<open>saturatedPush(arr, e, -1)\<close>), and \<open>None\<close> is that divergence.
\<close>

section \<open>toMetric\<close>

definition units :: "string list" where
  "units = [''B'', ''kB'', ''MB'', ''GB'', ''TB'', ''PB'', ''EB'']"

text \<open>
  \<^verbatim>\<open>units[unitIndex]\<close>: past the end a JavaScript array read yields
  \<^verbatim>\<open>undefined\<close>, which string concatenation prints as \<^verbatim>\<open>"undefined"\<close>.
\<close>

definition unit_at :: "nat \<Rightarrow> string" where
  "unit_at i = (if i < length units then units ! i else ''undefined'')"

text \<open>\<^verbatim>\<open>while (bytes > 1000) { bytes /= 1024; unitIndex++ }\<close>\<close>

partial_function (option) toMetric_loop :: "js_number \<Rightarrow> nat \<Rightarrow> (js_number \<times> nat) option" where
  "toMetric_loop bytes unitIndex =
     (if js_gt bytes (Num 1000) then toMetric_loop (js_div_pos bytes 1024) (Suc unitIndex)
      else Some (bytes, unitIndex))"

text \<open>
  \<^verbatim>\<open>toMetric(bytes: number | null, precision = 1)\<close>; \<^verbatim>\<open>null\<close> is \<open>None\<close>.
  The outer \<open>option\<close> is termination, the sum the \<^verbatim>\<open>RangeError\<close> that
  \<^verbatim>\<open>toFixed\<close> throws for a bad precision.
\<close>

definition toMetric ::
  "(rat \<Rightarrow> string) \<Rightarrow> js_number option \<Rightarrow> js_number \<Rightarrow> (js_error + string) option" where
  "toMetric num_to_string bytes precision =
     (case bytes of
        None \<Rightarrow> Some (Inr ''0B'')
      | Some b \<Rightarrow>
          if \<not> js_truthy b then Some (Inr ''0B'')
          else (case toMetric_loop b 0 of
                  None \<Rightarrow> None
                | Some (b', unitIndex) \<Rightarrow>
                    Some (case js_to_fixed num_to_string b' precision of
                            Inl e \<Rightarrow> Inl e
                          | Inr s \<Rightarrow> Inr (s @ unit_at unitIndex))))"

text \<open>
  The number of divisions the loop makes on a finite value: the closed form the
  loop is proved against.
\<close>

function metric_steps :: "rat \<Rightarrow> nat" where
  "metric_steps q = (if 1000 < q then Suc (metric_steps (q / 1024)) else 0)"
  by pat_completeness auto
termination
proof (relation "measure (\<lambda>q. nat \<lceil>q\<rceil>)")
  show "wf (measure (\<lambda>q. nat \<lceil>q\<rceil>))" by simp
next
  fix q :: rat
  assume q: "1000 < q"
  then have "q / 1024 \<le> q - 1" by (simp add: field_simps)
  then have "\<lceil>q / 1024\<rceil> \<le> \<lceil>q\<rceil> - 1"
    by (metis ceiling_diff_one ceiling_mono)
  moreover from q have "0 < \<lceil>q\<rceil>" by linarith
  ultimately show "(q / 1024, q) \<in> measure (\<lambda>q. nat \<lceil>q\<rceil>)" by simp
qed

declare metric_steps.simps [simp del]

section \<open>calcStrokeWidth\<close>

definition calcStrokeWidth :: "js_number \<Rightarrow> nat" where
  "calcStrokeWidth numArcs =
     (if js_eq numArcs (Num 1) then 12
      else if js_less numArcs (Num 4) then 10
      else if js_eq numArcs (Num 4) then 8
      else if js_eq numArcs (Num 5) then 6
      else if js_eq numArcs (Num 6) then 5
      else if js_less numArcs (Num 9) then 4
      else 3)"

text \<open>The step table the widths promise for 1, 2, 3, \<dots> concentric arcs.\<close>

fun stroke_width_table :: "nat \<Rightarrow> nat" where
  "stroke_width_table k =
     (if k \<le> 1 then 12 else if k \<le> 3 then 10 else if k = 4 then 8 else if k = 5 then 6
      else if k = 6 then 5 else if k \<le> 8 then 4 else 3)"

section \<open>saturatedPush\<close>

text \<open>
  \<^verbatim>\<open>while (arr.length > limit) arr.shift()\<close>. \<^verbatim>\<open>shift\<close> on an empty array leaves
  it empty, which is \<open>tl []\<close>.
\<close>

partial_function (option) shift_while :: "js_number \<Rightarrow> 'a list \<Rightarrow> 'a list option" where
  "shift_while limit arr =
     (if js_gt (Num (of_nat (length arr))) limit then shift_while limit (tl arr) else Some arr)"

text \<open>
  \<^verbatim>\<open>saturatedPush(arr, element, limit)\<close> mutates the caller's array in place and
  returns nothing; the model returns the array's contents after the call.
\<close>

definition saturatedPush :: "'a list \<Rightarrow> 'a \<Rightarrow> js_number \<Rightarrow> 'a list option" where
  "saturatedPush arr element limit = shift_while limit (arr @ [element])"

text \<open>A caller pushing samples one by one into the same window, as the gauges do.\<close>

fun push_all :: "'a list \<Rightarrow> 'a list \<Rightarrow> nat \<Rightarrow> 'a list option" where
  "push_all arr [] limit = Some arr"
| "push_all arr (e # es) limit =
     (case saturatedPush arr e (Num (of_nat limit)) of
        None \<Rightarrow> None
      | Some arr' \<Rightarrow> push_all arr' es limit)"

definition take_last :: "nat \<Rightarrow> 'a list \<Rightarrow> 'a list" where
  "take_last n xs = drop (length xs - n) xs"

section \<open>Lemmas: the toMetric loop\<close>

lemma metric_steps_above: "1000 < q \<Longrightarrow> metric_steps q = Suc (metric_steps (q / 1024))"
  by (subst metric_steps.simps) simp

lemma metric_steps_below: "\<not> 1000 < q \<Longrightarrow> metric_steps q = 0"
  by (subst metric_steps.simps) simp

lemma toMetric_loop_above:
  "js_gt b (Num 1000) \<Longrightarrow> toMetric_loop b i = toMetric_loop (js_div_pos b 1024) (Suc i)"
  by (subst toMetric_loop.simps) simp

lemma toMetric_loop_below:
  "\<not> js_gt b (Num 1000) \<Longrightarrow> toMetric_loop b i = Some (b, i)"
  by (subst toMetric_loop.simps) simp

lemmas toMetric_eval =
  toMetric_def toMetric_loop_above toMetric_loop_below js_to_fixed_def fixed_point_string_def
  round_fixed_def dec_digits.simps digit_char_def unit_at_def units_def

text \<open>On a finite value the loop returns, after \<open>metric_steps q\<close> divisions.\<close>

lemma toMetric_loop_Num:
  "toMetric_loop (Num q) i = Some (Num (q / 1024 ^ metric_steps q), i + metric_steps q)"
proof (induction q arbitrary: i rule: metric_steps.induct)
  case (1 q)
  show ?case
  proof (cases "1000 < q")
    case True
    with "1.IH" [of "Suc i"] show ?thesis
      by (simp add: toMetric_loop_above metric_steps_above divide_divide_eq_left)
  next
    case False
    then show ?thesis by (simp add: toMetric_loop_below metric_steps_below)
  qed
qed

lemma toMetric_loop_NaN_NegInf:
  "toMetric_loop NaN i = Some (NaN, i)" "toMetric_loop NegInf i = Some (NegInf, i)"
  by (simp_all add: toMetric_loop_below)

text \<open>If the loop returns at all, it did not start from \<^verbatim>\<open>Infinity\<close>: partial correctness.\<close>

lemma toMetric_loop_returns_not_PosInf:
  assumes "toMetric_loop b i = Some r"
  shows "b \<noteq> PosInf"
proof (rule toMetric_loop.raw_induct [where P = "\<lambda>b i r. b \<noteq> PosInf", OF _ assms])
  fix f :: "js_number \<Rightarrow> nat \<Rightarrow> (js_number \<times> nat) option" and b i r
  assume IH: "\<And>b i r. f b i = Some r \<Longrightarrow> b \<noteq> PosInf"
    and eq: "(if js_gt b (Num 1000) then f (js_div_pos b 1024) (Suc i) else Some (b, i)) = Some r"
  show "b \<noteq> PosInf"
  proof
    assume "b = PosInf"
    with eq have "f PosInf (Suc i) = Some r" by simp
    with IH show False by blast
  qed
qed

lemma thousand_le_scaled: "(1000::rat) \<le> 1000 * 1024 ^ n"
proof -
  have "(1::rat) \<le> 1024 ^ n" by (rule one_le_power) simp
  then have "1000 * 1 \<le> 1000 * (1024::rat) ^ n" by (rule mult_left_mono) simp
  then show ?thesis by simp
qed

lemma metric_steps_le_iff: "metric_steps q \<le> n \<longleftrightarrow> q \<le> 1000 * 1024 ^ n"
proof (induction q arbitrary: n rule: metric_steps.induct)
  case (1 q)
  show ?case
  proof (cases "1000 < q")
    case True
    show ?thesis
    proof (cases n)
      case 0
      with True show ?thesis by (simp add: metric_steps_above)
    next
      case (Suc m)
      have "q / 1024 \<le> 1000 * 1024 ^ m \<longleftrightarrow> q \<le> 1000 * 1024 ^ n"
        by (simp add: Suc pos_divide_le_eq algebra_simps)
      with True "1.IH" [of m] Suc show ?thesis by (simp add: metric_steps_above)
    qed
  next
    case False
    with thousand_le_scaled [of n] have "q \<le> 1000 * 1024 ^ n" by linarith
    with False show ?thesis by (simp add: metric_steps_below)
  qed
qed

lemma metric_steps_mono: "q \<le> q' \<Longrightarrow> metric_steps q \<le> metric_steps q'"
  by (metis metric_steps_le_iff order_refl order_trans)

lemma metric_steps_scaled_bounds:
  "q / 1024 ^ metric_steps q \<le> 1000 \<and> (0 < metric_steps q \<longrightarrow> 1000 / 1024 < q / 1024 ^ metric_steps q)"
proof (induction q rule: metric_steps.induct)
  case (1 q)
  show ?case
  proof (cases "1000 < q")
    case True
    then have k: "metric_steps q = Suc (metric_steps (q / 1024))" by (rule metric_steps_above)
    have split: "q / 1024 ^ Suc k = q / 1024 / 1024 ^ k" for k :: nat
      by (simp add: divide_divide_eq_left)
    show ?thesis
    proof (cases "1000 < q / 1024")
      case False
      then have "metric_steps (q / 1024) = 0" by (rule metric_steps_below)
      with k False True show ?thesis by simp
    next
      case True': True
      then have "0 < metric_steps (q / 1024)" by (simp add: metric_steps_above)
      with True "1.IH" k show ?thesis by (simp only: split) simp
    qed
  next
    case False
    then show ?thesis by (simp add: metric_steps_below)
  qed
qed

section \<open>Lemmas: saturatedPush\<close>

lemma shift_while_nonneg:
  assumes "0 \<le> q"
  shows "shift_while (Num q) xs = Some (drop (length xs - nat \<lfloor>q\<rfloor>) xs)"
proof (induction xs)
  case Nil
  from assms show ?case by (subst shift_while.simps) simp
next
  case (Cons x xs)
  show ?case
  proof (cases "q < of_nat (length (x # xs))")
    case True
    then have "nat \<lfloor>q\<rfloor> < Suc (length xs)"
      using nat_gt_rat_iff_floor [of q "Suc (length xs)"] assms by simp
    with True Cons.IH show ?thesis
      by (subst shift_while.simps) (simp add: Suc_diff_le)
  next
    case False
    then have "Suc (length xs) \<le> nat \<lfloor>q\<rfloor>"
      using nat_gt_rat_iff_floor [of q "Suc (length xs)"] assms by simp
    with False show ?thesis
      by (subst shift_while.simps) simp
  qed
qed

lemma saturatedPush_nonneg:
  "0 \<le> q \<Longrightarrow> saturatedPush arr e (Num q) = Some (drop (length arr + 1 - nat \<lfloor>q\<rfloor>) (arr @ [e]))"
  using shift_while_nonneg [of q "arr @ [e]"] by (simp add: saturatedPush_def)

text \<open>If the loop returns, the limit was neither negative nor \<^verbatim>\<open>-Infinity\<close>.\<close>

lemma shift_while_returns_limit:
  assumes "shift_while limit xs = Some r"
  shows "limit \<noteq> NegInf \<and> (\<forall>q. limit = Num q \<longrightarrow> 0 \<le> q)"
proof (rule shift_while.raw_induct
    [where P = "\<lambda>limit xs r. limit \<noteq> NegInf \<and> (\<forall>q. limit = Num q \<longrightarrow> 0 \<le> q)", OF _ assms])
  fix f :: "js_number \<Rightarrow> 'a list \<Rightarrow> 'a list option" and limit xs r
  assume IH: "\<And>limit xs r. f limit xs = Some r \<Longrightarrow> limit \<noteq> NegInf \<and> (\<forall>q. limit = Num q \<longrightarrow> 0 \<le> q)"
    and eq: "(if js_gt (Num (of_nat (length xs))) limit then f limit (tl xs) else Some xs) = Some r"
  show "limit \<noteq> NegInf \<and> (\<forall>q. limit = Num q \<longrightarrow> 0 \<le> q)"
  proof (rule ccontr)
    assume bad: "\<not> (limit \<noteq> NegInf \<and> (\<forall>q. limit = Num q \<longrightarrow> 0 \<le> q))"
    then have "js_gt (Num (of_nat (length xs))) limit"
      by (auto simp: js_gt_def)
    with eq have "f limit (tl xs) = Some r" by simp
    with IH bad show False by blast
  qed
qed

lemma take_last_rev: "take_last n xs = rev (take n (rev xs))"
  by (simp add: take_last_def rev_take)

lemma take_last_idem_append: "take_last n (take_last n xs @ ys) = take_last n (xs @ ys)"
  by (simp add: take_last_rev take_append min_def)


section \<open>Properties of the utilities\<close>

text \<open>
  C11. \<^verbatim>\<open>saturatedPush\<close> with a limit \<open>q \<ge> 0\<close> returns, and leaves the window
  holding the last \<open>\<lfloor>q\<rfloor>\<close> elements of the old window followed by the pushed element,
  in their original order (fewer when there are fewer).
\<close>

theorem saturatedPush_window:
  assumes "0 \<le> q"
  shows "saturatedPush arr e (Num q) = Some (take_last (nat \<lfloor>q\<rfloor>) (arr @ [e]))"
  using saturatedPush_nonneg [OF assms] by (simp add: take_last_def)

theorem saturatedPush_window_witness:
  "(0::rat) \<le> 2 \<and> saturatedPush [1, 2, 3 :: nat] 4 (Num 2) = Some [3, 4]"
proof -
  have "saturatedPush [1, 2, 3 :: nat] 4 (Num 2) = Some (take_last (nat \<lfloor>2 :: rat\<rfloor>) ([1, 2, 3] @ [4]))"
    by (rule saturatedPush_window) simp
  then show ?thesis by (simp add: take_last_def)
qed

text \<open>
  C12. Pushing any sequence of samples, one call at a time, into a window of at most
  \<open>n\<close> elements with limit \<open>n\<close> keeps exactly the \<open>n\<close> most recent samples, in order.
\<close>

theorem push_all_window:
  "length arr \<le> n \<Longrightarrow> push_all arr es n = Some (take_last n (arr @ es))"
proof (induction es arbitrary: arr)
  case Nil
  then show ?case by (simp add: take_last_def)
next
  case (Cons e es)
  have step: "saturatedPush arr e (Num (of_nat n)) = Some (take_last n (arr @ [e]))"
    using saturatedPush_nonneg [of "of_nat n" arr e] by (simp add: take_last_def)
  have "length (take_last n (arr @ [e])) \<le> n" by (simp add: take_last_def)
  then have "push_all (take_last n (arr @ [e])) es n = Some (take_last n (take_last n (arr @ [e]) @ es))"
    by (rule Cons.IH)
  moreover have "take_last n (take_last n (arr @ [e]) @ es) = take_last n (arr @ e # es)"
    by (simp add: take_last_idem_append)
  ultimately show ?case by (simp add: step)
qed

theorem push_all_window_witness:
  "length [1 :: nat] \<le> 2 \<and> push_all [1 :: nat] [2, 3, 4] 2 = Some [3, 4]"
  using push_all_window [of "[1 :: nat]" 2 "[2, 3, 4]"] by (simp add: take_last_def)

text \<open>
  C13. With a negative limit \<^verbatim>\<open>saturatedPush\<close> never returns: once the array is empty
  its length 0 is still above the limit and \<^verbatim>\<open>shift\<close> changes nothing.
\<close>

theorem saturatedPush_negative_limit_diverges:
  "q < 0 \<Longrightarrow> saturatedPush arr e (Num q) = None"
  using shift_while_returns_limit [of "Num q" "arr @ [e]"] unfolding saturatedPush_def
  by (cases "shift_while (Num q) (arr @ [e])") auto

theorem saturatedPush_negative_limit_diverges_witness:
  "(-1 :: rat) < 0 \<and> saturatedPush [1 :: nat] 2 (Num (-1)) = None"
  using saturatedPush_negative_limit_diverges [of "-1" "[1 :: nat]" 2] by simp

text \<open>
  C14. \<^verbatim>\<open>toMetric\<close> returns on every input but \<^verbatim>\<open>Infinity\<close>: on \<^verbatim>\<open>null\<close>, on
  every finite number, on \<^verbatim>\<open>NaN\<close> and on \<^verbatim>\<open>-Infinity\<close>.
\<close>

theorem toMetric_terminates:
  assumes "b \<noteq> Some PosInf"
  shows "\<exists>r. toMetric ns b p = Some r"
proof (cases b)
  case None
  then show ?thesis by (simp add: toMetric_def)
next
  case (Some x)
  with assms show ?thesis
    by (cases x) (auto simp: toMetric_def toMetric_loop_Num toMetric_loop_NaN_NegInf)
qed

theorem toMetric_terminates_witness:
  "Some (Num 1500) \<noteq> Some PosInf \<and> (\<exists>r. toMetric (\<lambda>_. '''') (Some (Num 1500)) (Num 1) = Some r)"
  using toMetric_terminates [of "Some (Num 1500)" "\<lambda>_. ''''" "Num 1"] by simp

text \<open>
  C15. \<^verbatim>\<open>toMetric(Infinity)\<close> never returns: \<^verbatim>\<open>Infinity > 1000\<close> holds and
  \<^verbatim>\<open>Infinity / 1024\<close> is \<^verbatim>\<open>Infinity\<close>, so the loop runs forever.
\<close>

theorem toMetric_Infinity_diverges: "toMetric ns (Some PosInf) p = None"
  using toMetric_loop_returns_not_PosInf [of PosInf 0]
  by (cases "toMetric_loop PosInf 0") (auto simp: toMetric_def)

text \<open>
  C16. After the loop the magnitude is at most 1000, and above \<open>1000/1024\<close> whenever
  at least one division was made: the printed number lies in \<open>(0.98, 1000]\<close>.
\<close>

theorem toMetric_loop_bounds:
  assumes "toMetric_loop (Num q) 0 = Some (Num r, i)"
  shows "r \<le> 1000 \<and> (0 < i \<longrightarrow> 1000 / 1024 < r)"
proof -
  from assms have "r = q / 1024 ^ metric_steps q" and "i = metric_steps q"
    by (auto simp: toMetric_loop_Num)
  with metric_steps_scaled_bounds [of q] show ?thesis by simp
qed

theorem toMetric_loop_bounds_witness:
  "toMetric_loop (Num 1500) 0 = Some (Num (375 / 256), 1) \<and> (375 / 256 :: rat) \<le> 1000"
proof -
  have run: "toMetric_loop (Num 1500) 0 = Some (Num (375 / 256), 1)"
    by (simp add: toMetric_loop_above toMetric_loop_below)
  from toMetric_loop_bounds [OF run] run show ?thesis by simp
qed

text \<open>
  C17. The unit index stays inside \<^verbatim>\<open>units\<close> exactly for byte counts up to
  \<open>1000 * 1024^6\<close> (about \<open>1.15 * 10^21\<close>); above it the suffix is \<^verbatim>\<open>"undefined"\<close>.
\<close>

theorem toMetric_unit_in_range:
  "toMetric_loop (Num q) 0 = Some (b, i) \<Longrightarrow> (i < length units \<longleftrightarrow> q \<le> 1000 * 1024 ^ 6)"
  using metric_steps_le_iff [of q 6] by (auto simp: toMetric_loop_Num units_def)

theorem toMetric_unit_in_range_witness:
  "toMetric_loop (Num 1500) 0 = Some (Num (375 / 256), 1) \<and> 1 < length units"
proof -
  have run: "toMetric_loop (Num 1500) 0 = Some (Num (375 / 256), 1)"
    by (simp add: toMetric_loop_above toMetric_loop_below)
  from toMetric_unit_in_range [OF run] run show ?thesis by simp
qed

text \<open>C18. A larger byte count never gets a smaller unit.\<close>

theorem toMetric_unit_mono:
  "a \<le> b \<Longrightarrow> toMetric_loop (Num a) 0 = Some (x, i) \<Longrightarrow> toMetric_loop (Num b) 0 = Some (y, j) \<Longrightarrow> i \<le> j"
  using metric_steps_mono [of a b] by (simp add: toMetric_loop_Num)

theorem toMetric_unit_mono_witness:
  "(1500 :: rat) \<le> 2000000 \<and> toMetric_loop (Num 1500) 0 = Some (Num (375 / 256), 1)
   \<and> toMetric_loop (Num 2000000) 0 = Some (Num (15625 / 8192), 2) \<and> (1::nat) \<le> 2"
proof -
  have a: "toMetric_loop (Num 1500) 0 = Some (Num (375 / 256), 1)"
    by (simp add: toMetric_loop_above toMetric_loop_below)
  have b: "toMetric_loop (Num 2000000) 0 = Some (Num (15625 / 8192), 2)"
    by (simp add: toMetric_loop_above toMetric_loop_below)
  have "(1::nat) \<le> 2" by (rule toMetric_unit_mono [OF _ a b]) simp
  with a b show ?thesis by simp
qed

lemma toMetric_pos_output:
  assumes "0 < q" "f \<le> 100"
  shows "toMetric ns (Some (Num q)) (Num (of_nat f)) =
         Some (Inr (fixed_point_string (round_fixed (q / 1024 ^ metric_steps q) f) f @ unit_at (metric_steps q)))"
proof -
  let ?a = "q / 1024 ^ metric_steps q"
  have pos: "\<not> ?a < 0" using assms(1) by (simp add: not_less)
  have small: "\<not> 10 ^ 21 \<le> ?a"
  proof -
    have "(1000::rat) < 10 ^ 21" by simp
    then show ?thesis using metric_steps_scaled_bounds [of q] by linarith
  qed
  show ?thesis using assms pos small by (simp add: toMetric_def toMetric_loop_Num js_to_fixed_def)
qed

text \<open>
  C20. Beyond the exabyte range the unit read runs off the array: for every byte count
  above \<open>1000 * 1024\<^sup>6\<close> and every valid precision, \<^verbatim>\<open>toMetric\<close> returns a string
  ending in \<^verbatim>\<open>"undefined"\<close> (\<^verbatim>\<open>units[7]\<close> and beyond), a limitation the
  specification asks to document rather than guess at.
\<close>

theorem toMetric_beyond_exabytes:
  assumes "1000 * 1024 ^ 6 < q" "f \<le> 100"
  shows "\<exists>s. toMetric ns (Some (Num q)) (Num (of_nat f)) = Some (Inr (s @ ''undefined''))"
proof -
  have "(0::rat) < 1000 * 1024 ^ 6" by simp
  then have "0 < q" using assms(1) by linarith
  moreover have "\<not> metric_steps q \<le> 6" using metric_steps_le_iff [of q 6] assms(1) by simp
  then have "unit_at (metric_steps q) = ''undefined''" by (simp add: unit_at_def units_def)
  ultimately show ?thesis using toMetric_pos_output [OF _ assms(2)] by auto
qed

theorem toMetric_beyond_exabytes_witness:
  "1000 * 1024 ^ 6 < (10 ^ 22 :: rat) \<and> (1::nat) \<le> 100 \<and>
   (\<exists>s. toMetric (\<lambda>_. '''') (Some (Num (10 ^ 22))) (Num (of_nat 1)) = Some (Inr (s @ ''undefined'')))"
  using toMetric_beyond_exabytes [of "10 ^ 22" 1 "\<lambda>_. ''''"] by simp

text \<open>
  C21. For every byte count but \<^verbatim>\<open>Infinity\<close> (where the call never returns),
  \<^verbatim>\<open>toMetric\<close> throws exactly when the count is a truthy number and the precision,
  after \<^verbatim>\<open>ToIntegerOrInfinity\<close>, is infinite or outside 0..100; the exception is then a
  \<^verbatim>\<open>RangeError\<close>. \<^verbatim>\<open>null\<close>, 0 and \<^verbatim>\<open>NaN\<close> print \<^verbatim>\<open>"0B"\<close> whatever the precision.
\<close>

theorem toMetric_error_iff:
  assumes "b \<noteq> Some PosInf"
  shows "toMetric ns b p = Some (Inl e) \<longleftrightarrow>
         e = RangeError \<and> (\<exists>x. b = Some x \<and> js_truthy x) \<and>
         (case js_to_integer p of None \<Rightarrow> True | Some f \<Rightarrow> f < 0 \<or> 100 < f)"
proof (cases b)
  case None
  then show ?thesis by (simp add: toMetric_def)
next
  case (Some x)
  with assms show ?thesis
    by (cases x) (auto simp: toMetric_def toMetric_loop_Num toMetric_loop_NaN_NegInf js_to_fixed_def
        Let_def split: option.splits if_splits sum.splits)
qed

theorem toMetric_error_iff_witness:
  "Some (Num 1500) \<noteq> Some PosInf \<and> toMetric (\<lambda>_. '''') (Some (Num 1500)) (Num 101) = Some (Inl RangeError) \<and>
   None \<noteq> Some PosInf \<and> toMetric (\<lambda>_. '''') None (Num 101) \<noteq> Some (Inl RangeError)"
  using toMetric_error_iff [of "Some (Num 1500)" "\<lambda>_. ''''" "Num 101" RangeError]
    toMetric_error_iff [of None "\<lambda>_. ''''" "Num 101" RangeError] by simp

text \<open>
  C22. On positive integer arc counts \<^verbatim>\<open>calcStrokeWidth\<close> is the step table
  1 \<open>\<mapsto>\<close> 12, 2--3 \<open>\<mapsto>\<close> 10, 4 \<open>\<mapsto>\<close> 8, 5 \<open>\<mapsto>\<close> 6, 6 \<open>\<mapsto>\<close> 5,
  7--8 \<open>\<mapsto>\<close> 4, 9 and more \<open>\<mapsto>\<close> 3.
\<close>

theorem calcStrokeWidth_table:
  "1 \<le> k \<Longrightarrow> calcStrokeWidth (Num (of_nat k)) = stroke_width_table k"
  by (auto simp: calcStrokeWidth_def)

theorem calcStrokeWidth_table_witness:
  "(1::nat) \<le> 7 \<and> calcStrokeWidth (Num 7) = 4"
  using calcStrokeWidth_table [of 7] by simp

text \<open>C23. On positive integer arc counts, more arcs never get a wider stroke.\<close>

theorem calcStrokeWidth_antimono:
  "1 \<le> j \<Longrightarrow> j \<le> k \<Longrightarrow> calcStrokeWidth (Num (of_nat k)) \<le> calcStrokeWidth (Num (of_nat j))"
  by (auto simp: calcStrokeWidth_def)

theorem calcStrokeWidth_antimono_witness:
  "(1::nat) \<le> 2 \<and> (2::nat) \<le> 9 \<and> calcStrokeWidth (Num 9) \<le> calcStrokeWidth (Num 2)"
  using calcStrokeWidth_antimono [of 2 9] by simp

text \<open>
  C24. Off the positive integers, where the specification's table says nothing, the code's
  equality tests never fire and only its two comparisons decide: every other number (a
  fraction, zero, a negative value, \<^verbatim>\<open>NaN\<close> or an infinity) gets 10 below 4, 4 below 9,
  and 3 otherwise, so 4.5 arcs get width 4 although 4 and 5 arcs get 8 and 6.
\<close>

theorem calcStrokeWidth_off_integers:
  assumes "\<not> (\<exists>k::nat. 1 \<le> k \<and> x = Num (of_nat k))"
  shows "calcStrokeWidth x = (if js_less x (Num 4) then 10 else if js_less x (Num 9) then 4 else 3)"
proof -
  have "x \<noteq> Num 1" "x \<noteq> Num 4" "x \<noteq> Num 5" "x \<noteq> Num 6"
    using assms by (metis of_nat_1 of_nat_numeral one_le_numeral order_refl)+
  then show ?thesis by (cases x) (auto simp: calcStrokeWidth_def)
qed

theorem calcStrokeWidth_off_integers_witness:
  "\<not> (\<exists>k::nat. 1 \<le> k \<and> Num (9 / 2) = Num (of_nat k)) \<and> calcStrokeWidth (Num (9 / 2)) = 4"
proof -
  have h: "\<not> (\<exists>k::nat. 1 \<le> k \<and> Num (9 / 2) = Num (of_nat k))"
  proof
    assume "\<exists>k::nat. 1 \<le> k \<and> Num (9 / 2) = Num (of_nat k)"
    then obtain k :: nat where "Num (9 / 2) = Num (of_nat k)" by blast
    then have "(of_nat (2 * k) :: rat) = of_nat 9" by simp
    then have "2 * k = 9" by (simp only: of_nat_eq_iff)
    then show False by presburger
  qed
  show ?thesis using calcStrokeWidth_off_integers [OF h] h by simp
qed

text \<open>C19. For a positive byte count and a precision \<open>f\<close> in 0..100, \<^verbatim>\<open>toMetric\<close> prints
  a non-empty run of digits, then (when \<open>f > 0\<close>) a point and exactly \<open>f\<close> digits, then the
  unit of the step count; read back without the point, the digits are the scaled value
  rounded to \<open>f\<close> decimals, halves up.\<close>

theorem toMetric_prints_rounded:
  assumes "0 < q" "f \<le> 100"
  shows "\<exists>ip fp. toMetric ns (Some (Num q)) (Num (of_nat f)) =
           Some (Inr (ip @ (if f = 0 then [] else ''.'' @ fp) @ unit_at (metric_steps q))) \<and>
         ip \<noteq> [] \<and> length fp = f \<and> (\<forall>c\<in>set (ip @ fp). is_digit c) \<and>
         digits_value (ip @ fp) = round_fixed (q / 1024 ^ metric_steps q) f"
  using toMetric_pos_output [OF assms, of ns]
    fixed_point_string_split [of "round_fixed (q / 1024 ^ metric_steps q) f" f] by fastforce

theorem toMetric_prints_rounded_witness:
  "(0::rat) < 1500 \<and> (1::nat) \<le> 100 \<and>
   (\<exists>ip fp. toMetric (\<lambda>_. '''') (Some (Num 1500)) (Num (of_nat 1)) =
           Some (Inr (ip @ (if (1::nat) = 0 then [] else ''.'' @ fp) @ unit_at (metric_steps 1500))) \<and>
         ip \<noteq> [] \<and> length fp = 1 \<and> (\<forall>c\<in>set (ip @ fp). is_digit c) \<and>
         digits_value (ip @ fp) = round_fixed (1500 / 1024 ^ metric_steps 1500) 1)"
  using toMetric_prints_rounded [of 1500 1 "\<lambda>_. ''''"] by simp

end
