(* ===== verification/StyleVars.thy ===== *)
theory StyleVars
  imports Prelude
begin

text \<open>
  The Svelte action \<^verbatim>\<open>styleVars\<close> of \<^verbatim>\<open>src/lib/actions.ts\<close> (lines 5--21). It
  projects a plain object \<^verbatim>\<open>props\<close> onto the inline style of its node as CSS custom
  properties \<^verbatim>\<open>--key: value\<close>, and its \<^verbatim>\<open>update\<close> method replaces the projection
  by that of a new object.

  The state is the node's inline style declarations and a heap of the plain objects
  passed to the action, addressed by reference: \<^verbatim>\<open>update\<close> executes
  \<^verbatim>\<open>delete props[key]\<close> on the object it received before, which is the caller's own
  object, so the model keeps objects in a store and the closure variable \<^verbatim>\<open>props\<close> as a
  reference into it. An object is the list of its own enumerable string-keyed properties
  in \<^verbatim>\<open>Object.entries\<close> order. The browser side is \<^verbatim>\<open>CSSStyleDeclaration\<close>:
  \<^verbatim>\<open>setProperty\<close> converts the value to a string (\<^verbatim>\<open>null\<close> to the empty string)
  and removes the declaration when that string is empty; \<^verbatim>\<open>removeProperty\<close> removes it.
\<close>

section \<open>Values, objects and the node's style\<close>

text \<open>The values a props object carries, as \<^verbatim>\<open>setProperty\<close> receives them.\<close>

datatype js_value = JStr string | JNull | JUndefined

type_synonym js_object = "(string \<times> js_value) list"

text \<open>The argument of the action: an object reference, or \<^verbatim>\<open>null\<close> / \<^verbatim>\<open>undefined\<close>.\<close>

datatype js_ref = JsNull | JsUndefined | Ref nat

record dom_state =
  style :: "dom_string \<Rightarrow> dom_string option"
  heap :: "nat \<Rightarrow> js_object"
  next_ref :: nat

text \<open>The closure of the object the action returns: the current \<^verbatim>\<open>props\<close>.\<close>

record style_vars_handle =
  props :: nat

section \<open>The CSSOM operations the action calls\<close>

text \<open>The WebIDL conversion of the \<^verbatim>\<open>value\<close> argument (\<^verbatim>\<open>[LegacyNullToEmptyString]\<close>).\<close>

fun css_value :: "js_value \<Rightarrow> dom_string" where
  "css_value (JStr s) = s"
| "css_value JNull = ''''"
| "css_value JUndefined = ''undefined''"

definition setProperty :: "dom_string \<Rightarrow> js_value \<Rightarrow> dom_state \<Rightarrow> dom_state" where
  "setProperty name value st =
     (let s = css_value value in
      if s = '''' then st\<lparr>style := (style st)(name := None)\<rparr>
      else st\<lparr>style := (style st)(name \<mapsto> s)\<rparr>)"

definition removeProperty :: "dom_string \<Rightarrow> dom_state \<Rightarrow> dom_state" where
  "removeProperty name st = st\<lparr>style := (style st)(name := None)\<rparr>"

text \<open>The template literal \<^verbatim>\<open>`--${key}`\<close>.\<close>

definition custom_name :: "string \<Rightarrow> dom_string" where
  "custom_name key = ''--'' @ key"

text \<open>\<^verbatim>\<open>delete props[key]\<close> on the object at reference \<open>r\<close>.\<close>

definition delete_prop :: "nat \<Rightarrow> string \<Rightarrow> dom_state \<Rightarrow> dom_state" where
  "delete_prop r key st = st\<lparr>heap := (heap st)(r := AList.delete key (heap st r))\<rparr>"

section \<open>The action\<close>

text \<open>The body of the first \<^verbatim>\<open>forEach\<close> (line 7).\<close>

fun set_entry :: "string \<times> js_value \<Rightarrow> dom_state \<Rightarrow> dom_state" where
  "set_entry (key, value) st = setProperty (custom_name key) value st"

text \<open>
  \<^verbatim>\<open>styleVars(node, props)\<close>: \<^verbatim>\<open>Object.entries\<close> throws a \<^verbatim>\<open>TypeError\<close> on
  \<^verbatim>\<open>null\<close> and \<^verbatim>\<open>undefined\<close>.
\<close>

fun styleVars :: "js_ref \<Rightarrow> dom_state \<Rightarrow> js_error + (dom_state \<times> style_vars_handle)" where
  "styleVars (Ref r) st = Inr (fold set_entry (heap st r) st, \<lparr>props = r\<rparr>)"
| "styleVars JsNull st = Inl TypeError"
| "styleVars JsUndefined st = Inl TypeError"

text \<open>The body of the \<^verbatim>\<open>forEach\<close> in \<^verbatim>\<open>update\<close> (lines 13--14).\<close>

fun update_entry :: "nat \<Rightarrow> string \<times> js_value \<Rightarrow> dom_state \<Rightarrow> dom_state" where
  "update_entry p (key, value) st = delete_prop p key (setProperty (custom_name key) value st)"

text \<open>
  \<^verbatim>\<open>update(newProps)\<close>: the entries of the new object are read once, before the loop
  (\<^verbatim>\<open>Object.entries\<close> returns an array); the keys left in the old object are read after
  it (line 17); then the closure variable is rebound (line 18).
\<close>

fun styleVars_update ::
  "style_vars_handle \<Rightarrow> js_ref \<Rightarrow> dom_state \<Rightarrow> js_error + (dom_state \<times> style_vars_handle)" where
  "styleVars_update h (Ref n) st =
     (let st1 = fold (update_entry (props h)) (heap st n) st;
          st2 = fold (\<lambda>name. removeProperty (custom_name name)) (map fst (heap st1 (props h))) st1
      in Inr (st2, h\<lparr>props := n\<rparr>))"
| "styleVars_update h JsNull st = Inl TypeError"
| "styleVars_update h JsUndefined st = Inl TypeError"

section \<open>The caller: Svelte passing a fresh object literal\<close>

text \<open>
  With \<^verbatim>\<open>use:styleVars={{...}}\<close> Svelte evaluates the object literal anew for the
  mount and for every update: a fresh allocation each time.
\<close>

definition alloc_object :: "js_object \<Rightarrow> dom_state \<Rightarrow> dom_state \<times> nat" where
  "alloc_object obj st =
     (st\<lparr>heap := (heap st)(next_ref st := obj), next_ref := Suc (next_ref st)\<rparr>, next_ref st)"

definition mount_literal :: "js_object \<Rightarrow> dom_state \<Rightarrow> js_error + (dom_state \<times> style_vars_handle)" where
  "mount_literal obj st = (let (st1, r) = alloc_object obj st in styleVars (Ref r) st1)"

fun update_literals ::
  "style_vars_handle \<Rightarrow> js_object list \<Rightarrow> dom_state \<Rightarrow> js_error + (dom_state \<times> style_vars_handle)" where
  "update_literals h [] st = Inr (st, h)"
| "update_literals h (obj # objs) st =
     (let (st1, r) = alloc_object obj st in
      case styleVars_update h (Ref r) st1 of
        Inl e \<Rightarrow> Inl e
      | Inr (st2, h2) \<Rightarrow> update_literals h2 objs st2)"

section \<open>What the style should be\<close>

text \<open>The custom property a mapping asks for at \<open>key\<close>, after the string conversion.\<close>

definition declared_value :: "js_value \<Rightarrow> dom_string option" where
  "declared_value v = (if css_value v = '''' then None else Some (css_value v))"

definition style_view :: "js_object \<Rightarrow> string \<Rightarrow> dom_string option" where
  "style_view obj key = (case map_of obj key of None \<Rightarrow> None | Some v \<Rightarrow> declared_value v)"

definition keys :: "js_object \<Rightarrow> string set" where
  "keys obj = fst ` set obj"

definition synced :: "dom_state \<Rightarrow> style_vars_handle \<Rightarrow> bool" where
  "synced st h \<longleftrightarrow> (\<forall>k. style st (custom_name k) = style_view (heap st (props h)) k)"

definition no_custom_props :: "dom_state \<Rightarrow> bool" where
  "no_custom_props st \<longleftrightarrow> (\<forall>k. style st (custom_name k) = None)"

section \<open>The scenarios of the properties\<close>

definition svelte_style_run ::
  "js_object \<Rightarrow> js_object list \<Rightarrow> dom_state \<Rightarrow> js_error + (dom_state \<times> style_vars_handle)" where
  "svelte_style_run obj0 objs st =
     (case mount_literal obj0 st of Inl e \<Rightarrow> Inl e | Inr (st1, h1) \<Rightarrow> update_literals h1 objs st1)"

definition example_state :: dom_state where
  "example_state =
     \<lparr>style = Map.empty,
      heap = (\<lambda>_. [])(0 := [(''a'', JStr ''1''), (''b'', JStr ''2'')], 1 := [(''b'', JStr ''3''), (''c'', JStr ''4'')]),
      next_ref = 2\<rparr>"

definition alias_state :: dom_state where
  "alias_state =
     \<lparr>style = Map.empty, heap = (\<lambda>_. [])(0 := [(''a'', JStr ''1'')], 1 := [(''b'', JStr ''2'')]), next_ref = 2\<rparr>"

definition same_mapping_state :: dom_state where
  "same_mapping_state =
     \<lparr>style = [custom_name ''a'' \<mapsto> ''1''],
      heap = (\<lambda>_. [])(0 := [(''a'', JStr ''1'')], 1 := [(''a'', JStr ''1'')]), next_ref = 2\<rparr>"

section \<open>Lemmas\<close>

lemma custom_name_inj [simp]: "custom_name a = custom_name b \<longleftrightarrow> a = b"
  by (simp add: custom_name_def)

lemma style_set_entry:
  "style (set_entry (k, v) st) = (style st)(custom_name k := declared_value v)"
  by (simp add: setProperty_def declared_value_def Let_def)

lemma style_update_entry [simp]: "style (update_entry p e st) = style (set_entry e st)"
  by (cases e) (simp add: delete_prop_def)

lemma heap_set_entry [simp]: "heap (set_entry e st) = heap st"
  by (cases e) (simp add: setProperty_def Let_def)

lemma style_view_Cons:
  "style_view ((k', v) # obj) k = (if k = k' then declared_value v else style_view obj k)"
  by (simp add: style_view_def)

lemma AList_delete_filter: "AList.delete k xs = filter (\<lambda>e. fst e \<noteq> k) xs"
  by (induction xs) auto

text \<open>
  The two loops that set properties (\<open>set_entry\<close> in \<^verbatim>\<open>styleVars\<close>,
  \<open>update_entry\<close> in \<^verbatim>\<open>update\<close>) act alike on the style: any step function whose
  effect on the style is that of \<open>set_entry\<close>.
\<close>

lemma fold_style_other:
  assumes f: "\<And>e st. style (f e st) = style (set_entry e st)"
    and x: "x \<notin> custom_name ` keys es"
  shows "style (fold f es st) x = style st x"
  using x
proof (induction es arbitrary: st)
  case Nil
  then show ?case by simp
next
  case (Cons e es)
  obtain k v where e: "e = (k, v)" by (cases e)
  from Cons.prems have "style (fold f es (f e st)) x = style (f e st) x"
    by (intro Cons.IH) (simp add: keys_def)
  also from Cons.prems e have "\<dots> = style st x"
    by (simp add: f style_set_entry keys_def del: set_entry.simps)
  finally show ?case by simp
qed

lemma fold_style_key:
  assumes f: "\<And>e st. style (f e st) = style (set_entry e st)"
    and d: "distinct (map fst es)" and k: "k \<in> keys es"
  shows "style (fold f es st) (custom_name k) = style_view es k"
  using d k
proof (induction es arbitrary: st)
  case Nil
  then show ?case by (simp add: keys_def)
next
  case (Cons e es)
  obtain k' v where e: "e = (k', v)" by (cases e)
  show ?case
  proof (cases "k = k'")
    case True
    with Cons.prems e have "custom_name k \<notin> custom_name ` keys es"
      by (fastforce simp: keys_def)
    then have "style (fold f es (f e st)) (custom_name k) = style (f e st) (custom_name k)"
      by (rule fold_style_other [OF f])
    with True e show ?thesis by (simp add: f style_set_entry style_view_Cons del: set_entry.simps)
  next
    case False
    with Cons.prems e have "style (fold f es (f e st)) (custom_name k) = style_view es k"
      by (intro Cons.IH) (auto simp: keys_def)
    with False e show ?thesis by (simp add: style_view_Cons)
  qed
qed

lemma fold_style:
  assumes f: "\<And>e st. style (f e st) = style (set_entry e st)"
    and d: "distinct (map fst es)"
  shows "style (fold f es st) (custom_name k) =
           (if k \<in> keys es then style_view es k else style st (custom_name k))"
proof (cases "k \<in> keys es")
  case True
  then show ?thesis by (simp add: fold_style_key [OF f d])
next
  case False
  then have "custom_name k \<notin> custom_name ` keys es" by auto
  with False show ?thesis by (simp add: fold_style_other [OF f])
qed

lemma heap_update_entry:
  "heap (update_entry p (k, v) st) = (heap st)(p := filter (\<lambda>x. fst x \<noteq> k) (heap st p))"
  by (simp add: delete_prop_def AList_delete_filter setProperty_def Let_def)

lemma fold_update_entry_heap:
  "heap (fold (update_entry p) es st) = (heap st)(p := filter (\<lambda>e. fst e \<notin> keys es) (heap st p))"
proof (induction es arbitrary: st)
  case Nil
  then show ?case by (simp add: keys_def)
next
  case (Cons e es)
  obtain k v where e: "e = (k, v)" by (cases e)
  have "heap (fold (update_entry p) (e # es) st) =
      (heap (update_entry p e st))(p := filter (\<lambda>x. fst x \<notin> keys es) (heap (update_entry p e st) p))"
    by (simp only: fold_Cons comp_def Cons.IH)
  also have "\<dots> = (heap st)(p := filter (\<lambda>x. fst x \<notin> keys (e # es)) (heap st p))"
    by (simp add: e heap_update_entry filter_filter keys_def conj_commute del: update_entry.simps)
  finally show ?case .
qed

lemma fold_remove_style:
  "style (fold (\<lambda>name. removeProperty (custom_name name)) names st) x =
     (if x \<in> custom_name ` set names then None else style st x)"
  by (induction names arbitrary: st) (auto simp: removeProperty_def)

lemma fold_remove_heap [simp]:
  "heap (fold (\<lambda>name. removeProperty (custom_name name)) names st) = heap st"
  by (induction names arbitrary: st) (simp_all add: removeProperty_def)

lemma keys_filter: "fst ` set (filter (\<lambda>e. fst e \<notin> A) xs) = fst ` set xs - A"
  by auto

lemma custom_name_in_image [simp]: "custom_name k \<in> custom_name ` S \<longleftrightarrow> k \<in> S"
  by auto

lemma next_ref_fold:
  "(\<And>e st. next_ref (f e st) = next_ref st) \<Longrightarrow> next_ref (fold f es st) = next_ref st"
  by (induction es arbitrary: st) simp_all

lemma next_ref_steps [simp]:
  "next_ref (set_entry e st) = next_ref st" "next_ref (update_entry p e st) = next_ref st"
  "next_ref (removeProperty x st) = next_ref st"
  by (cases e; simp add: setProperty_def delete_prop_def removeProperty_def Let_def)+

lemma heap_fold_set_entry [simp]: "heap (fold set_entry es st) = heap st"
  by (induction es arbitrary: st) simp_all

lemma styleVars_update_result:
  assumes run: "styleVars_update h (Ref n) st = Inr (st', h')"
  defines "st1 \<equiv> fold (update_entry (props h)) (heap st n) st"
  shows "st' = fold (\<lambda>name. removeProperty (custom_name name)) (map fst (heap st1 (props h))) st1"
    and "h' = h\<lparr>props := n\<rparr>"
  using run by (simp_all add: st1_def Let_def)

lemma styleVars_update_heap:
  assumes "styleVars_update h (Ref n) st = Inr (st', h')"
  shows "heap st' = (heap st)(props h := filter (\<lambda>e. fst e \<notin> keys (heap st n)) (heap st (props h)))
    \<and> props h' = n \<and> next_ref st' = next_ref st"
  using styleVars_update_result [OF assms]
  by (simp add: fold_update_entry_heap next_ref_fold)

lemma styleVars_update_style:
  assumes d: "distinct (map fst (heap st n))"
    and run: "styleVars_update h (Ref n) st = Inr (st', h')"
  shows "style st' (custom_name k) =
           (if k \<in> keys (heap st n) then style_view (heap st n) k
            else if k \<in> keys (heap st (props h)) then None else style st (custom_name k))"
proof -
  define st1 where "st1 = fold (update_entry (props h)) (heap st n) st"
  have st': "st' = fold (\<lambda>name. removeProperty (custom_name name)) (map fst (heap st1 (props h))) st1"
    using styleVars_update_result (1) [OF run] by (simp add: st1_def)
  have s1: "style st1 (custom_name k) =
      (if k \<in> keys (heap st n) then style_view (heap st n) k else style st (custom_name k))"
    unfolding st1_def by (rule fold_style [OF style_update_entry d])
  have "set (map fst (heap st1 (props h))) = keys (heap st (props h)) - keys (heap st n)"
    by (force simp: st1_def fold_update_entry_heap keys_def)
  with s1 show ?thesis by (simp add: st' fold_remove_style)
qed

lemma styleVars_update_other:
  assumes run: "styleVars_update h (Ref n) st = Inr (st', h')"
    and x: "\<forall>k. x \<noteq> custom_name k"
  shows "style st' x = style st x"
proof -
  define st1 where "st1 = fold (update_entry (props h)) (heap st n) st"
  have st': "st' = fold (\<lambda>name. removeProperty (custom_name name)) (map fst (heap st1 (props h))) st1"
    using styleVars_update_result (1) [OF run] by (simp add: st1_def)
  from x have "x \<notin> custom_name ` keys (heap st n)" by auto
  then have "style st1 x = style st x"
    unfolding st1_def by (rule fold_style_other [OF style_update_entry])
  with x show ?thesis by (auto simp: st' fold_remove_style)
qed

lemma style_view_notin [simp]: "k \<notin> keys obj \<Longrightarrow> style_view obj k = None"
  using map_of_eq_None_iff [of obj k] by (simp add: style_view_def keys_def)

lemma update_literals_synced:
  assumes "synced st h" "props h < next_ref st" "\<forall>obj \<in> set objs. distinct (map fst obj)"
  shows "\<exists>st' h'. update_literals h objs st = Inr (st', h') \<and> synced st' h'
           \<and> props h' < next_ref st' \<and> heap st' (props h') = last (heap st (props h) # objs)"
  using assms
proof (induction objs arbitrary: st h)
  case Nil
  then show ?case by simp
next
  case (Cons obj objs)
  define st1 where "st1 = fst (alloc_object obj st)"
  define r where "r = next_ref st"
  have alloc: "alloc_object obj st = (st1, r)" by (simp add: st1_def r_def alloc_object_def)
  have fresh: "props h \<noteq> r" using Cons.prems(2) by (simp add: r_def)
  have st1: "style st1 = style st" "heap st1 r = obj" "heap st1 (props h) = heap st (props h)"
    "next_ref st1 = Suc r"
    using fresh by (simp_all add: st1_def r_def alloc_object_def)
  define st2 where "st2 = fst (projr (styleVars_update h (Ref r) st1))"
  have run: "styleVars_update h (Ref r) st1 = Inr (st2, h\<lparr>props := r\<rparr>)"
    by (simp add: st2_def Let_def)
  have d: "distinct (map fst obj)" using Cons.prems(3) by simp
  have "synced st2 (h\<lparr>props := r\<rparr>)"
    unfolding synced_def
  proof
    fix k
    have "heap st2 r = obj"
      using styleVars_update_heap [OF run] fresh st1 by simp
    moreover have "style st2 (custom_name k) = style_view obj k"
      using styleVars_update_style [OF _ run, of k] d st1 Cons.prems(1)
      by (auto simp: synced_def)
    ultimately show "style st2 (custom_name k) = style_view (heap st2 (props (h\<lparr>props := r\<rparr>))) k"
      by simp
  qed
  moreover have "r < next_ref st2" and "heap st2 r = obj"
    using styleVars_update_heap [OF run] fresh st1 by simp_all
  moreover have "\<forall>obj \<in> set objs. distinct (map fst obj)" using Cons.prems(3) by simp
  ultimately obtain st' h' where
    "update_literals (h\<lparr>props := r\<rparr>) objs st2 = Inr (st', h')" "synced st' h'"
    "props h' < next_ref st'" "heap st' (props h') = last (obj # objs)"
    using Cons.IH [of st2 "h\<lparr>props := r\<rparr>"] by (cases objs) auto
  moreover have "update_literals h (obj # objs) st = update_literals (h\<lparr>props := r\<rparr>) objs st2"
    by (simp add: alloc run del: styleVars_update.simps)
  ultimately show ?case by auto
qed

lemma mount_literal_synced:
  assumes "no_custom_props st" "distinct (map fst obj)"
  shows "\<exists>st1 h1. mount_literal obj st = Inr (st1, h1) \<and> synced st1 h1
           \<and> props h1 < next_ref st1 \<and> heap st1 (props h1) = obj"
proof -
  define st0 where "st0 = fst (alloc_object obj st)"
  have alloc: "alloc_object obj st = (st0, next_ref st)" by (simp add: st0_def alloc_object_def)
  have st0: "heap st0 (next_ref st) = obj" "style st0 = style st" "next_ref st0 = Suc (next_ref st)"
    by (simp_all add: st0_def alloc_object_def)
  define st1 where "st1 = fold set_entry obj st0"
  have "synced st1 \<lparr>props = next_ref st\<rparr>"
    unfolding synced_def
  proof
    fix k
    have "style st1 (custom_name k) = (if k \<in> keys obj then style_view obj k else style st0 (custom_name k))"
      unfolding st1_def by (rule fold_style [OF _ assms(2)]) simp
    with assms(1) st0 show "style st1 (custom_name k) = style_view (heap st1 (props \<lparr>props = next_ref st\<rparr>)) k"
      by (auto simp: st1_def no_custom_props_def)
  qed
  moreover have "next_ref st1 = Suc (next_ref st)" by (simp add: st1_def next_ref_fold st0)
  ultimately show ?thesis
    by (simp add: mount_literal_def alloc st0 st1_def)
qed

lemma svelte_style_run_synced:
  assumes "no_custom_props st" "\<forall>obj \<in> set (obj0 # objs). distinct (map fst obj)"
  shows "\<exists>st' h'. svelte_style_run obj0 objs st = Inr (st', h') \<and> synced st' h'
           \<and> heap st' (props h') = last (obj0 # objs)"
proof -
  have "distinct (map fst obj0)" using assms(2) by simp
  then obtain st1 h1 where m: "mount_literal obj0 st = Inr (st1, h1)" "synced st1 h1"
    "props h1 < next_ref st1" "heap st1 (props h1) = obj0"
    using mount_literal_synced [OF assms(1)] by blast
  with update_literals_synced [of st1 h1 objs] assms(2) show ?thesis
    by (auto simp: svelte_style_run_def)
qed

section \<open>Properties of styleVars\<close>

text \<open>
  C1. One call of \<^verbatim>\<open>update\<close> with a mapping whose keys are distinct sets every custom
  property of the new mapping to its value (a value that converts to the empty string
  removes it), removes those of the previous mapping that the new one lacks, leaves every
  other custom property as it was and never touches a property that is not custom; the
  handle then refers to the new object.
\<close>
theorem styleVars_update_exact:
  assumes "distinct (map fst (heap st n))" and "styleVars_update h (Ref n) st = Inr (st', h')"
  shows "props h' = n
    \<and> (\<forall>k. style st' (custom_name k) =
          (if k \<in> keys (heap st n) then style_view (heap st n) k
           else if k \<in> keys (heap st (props h)) then None else style st (custom_name k)))
    \<and> (\<forall>x. (\<forall>k. x \<noteq> custom_name k) \<longrightarrow> style st' x = style st x)"
  using styleVars_update_heap [OF assms(2)] styleVars_update_style [OF assms]
    styleVars_update_other [OF assms(2)] by blast

theorem styleVars_update_exact_witness:
  "style (fst (projr (styleVars_update \<lparr>props = 0\<rparr> (Ref 1) (fold set_entry (heap example_state 0) example_state))))
     = [custom_name ''b'' \<mapsto> ''3'', custom_name ''c'' \<mapsto> ''4'']"
proof -
  define st1 where "st1 = fold set_entry (heap example_state 0) example_state"
  define st2 where "st2 = fst (projr (styleVars_update \<lparr>props = 0\<rparr> (Ref 1) st1))"
  have run: "styleVars_update \<lparr>props = 0\<rparr> (Ref 1) st1 = Inr (st2, \<lparr>props = 1\<rparr>)"
    by (simp add: st2_def Let_def)
  have d: "distinct (map fst (heap st1 1))"
    unfolding st1_def heap_fold_set_entry by (simp add: example_state_def)
  have s1: "style st1 = [custom_name ''a'' \<mapsto> ''1'', custom_name ''b'' \<mapsto> ''2'']"
    by (simp add: st1_def example_state_def setProperty_def Let_def fun_eq_iff)
  have h1: "heap st1 = heap example_state"
    unfolding st1_def by (rule heap_fold_set_entry)
  note ex = styleVars_update_exact [OF d run]
  have "style st2 = [custom_name ''b'' \<mapsto> ''3'', custom_name ''c'' \<mapsto> ''4'']"
  proof (rule ext)
  fix x
  show "style st2 x = [custom_name ''b'' \<mapsto> ''3'', custom_name ''c'' \<mapsto> ''4''] x"
  proof (cases "\<exists>k. x = custom_name k")
    case True
    then obtain k where x: "x = custom_name k" by blast
    from ex have "style st2 (custom_name k) = (if k \<in> keys (heap st1 1) then style_view (heap st1 1) k
           else if k \<in> keys (heap st1 0) then None else style st1 (custom_name k))" by simp
    then show ?thesis
      by (simp add: x s1 h1 example_state_def keys_def style_view_def declared_value_def)
  next
    case False
    with ex have "style st2 x = style st1 x" by blast
    with False show ?thesis by (auto simp: s1)
  qed
  qed
  then show ?thesis by (simp only: st2_def st1_def)
qed

text \<open>
  C2. On a node without custom properties, mounting the action with an object literal and
  updating it with fresh object literals, as a Svelte template does, always returns and
  leaves on the node exactly the custom properties of the last literal.
\<close>
theorem styleVars_literals_exact:
  assumes "no_custom_props st" and "\<forall>obj \<in> set (obj0 # objs). distinct (map fst obj)"
  shows "\<exists>st' h'. svelte_style_run obj0 objs st = Inr (st', h')
           \<and> (\<forall>k. style st' (custom_name k) = style_view (last (obj0 # objs)) k)"
  using svelte_style_run_synced [OF assms] by (auto simp: synced_def)

theorem styleVars_literals_exact_witness:
  "no_custom_props example_state \<and>
   (\<exists>st' h'. svelte_style_run [(''a'', JStr ''1'')] [[(''b'', JStr ''2'')], [(''c'', JStr ''3'')]] example_state = Inr (st', h')
      \<and> (\<forall>k. style st' (custom_name k) = style_view [(''c'', JStr ''3'')] k))"
proof -
  have n: "no_custom_props example_state" by (simp add: no_custom_props_def example_state_def)
  show ?thesis
    using styleVars_literals_exact [OF n, of "[(''a'', JStr ''1'')]" "[[(''b'', JStr ''2'')], [(''c'', JStr ''3'')]]"]
    by (simp add: n)
qed

text \<open>
  C3. Updating with a mapping equal to the current one leaves the node's style unchanged,
  whether or not the caller passes the same object.
\<close>
theorem styleVars_update_same_mapping:
  assumes "synced st h" and "heap st n = heap st (props h)" and "distinct (map fst (heap st n))"
    and "styleVars_update h (Ref n) st = Inr (st', h')"
  shows "style st' = style st"
proof
  fix x
  show "style st' x = style st x"
  proof (cases "\<exists>k. x = custom_name k")
    case True
    then obtain k where "x = custom_name k" by blast
    with styleVars_update_style [OF assms(3,4), of k] assms(1,2) show ?thesis
      by (auto simp: synced_def)
  next
    case False
    with styleVars_update_other [OF assms(4)] show ?thesis by blast
  qed
qed

theorem styleVars_update_same_mapping_witness:
  "synced same_mapping_state \<lparr>props = 0\<rparr>
   \<and> style (fst (projr (styleVars_update \<lparr>props = 0\<rparr> (Ref 1) same_mapping_state)))
       = style same_mapping_state"
proof -
  have s: "synced same_mapping_state \<lparr>props = 0\<rparr>"
    by (simp add: synced_def same_mapping_state_def style_view_def declared_value_def)
  have e: "heap same_mapping_state 1 = heap same_mapping_state (props \<lparr>props = 0\<rparr>)"
    by (simp add: same_mapping_state_def)
  have d: "distinct (map fst (heap same_mapping_state 1))" by (simp add: same_mapping_state_def)
  obtain st' h' where run: "styleVars_update \<lparr>props = 0\<rparr> (Ref 1) same_mapping_state = Inr (st', h')"
    by (simp add: Let_def)
  from styleVars_update_same_mapping [OF s e d run] s run show ?thesis by simp
qed

text \<open>
  C4. Passing the current props object again breaks the binding for good. That update
  deletes every key of the caller's object, so the binding's record of what it set is
  empty, and the next update with any other object removes nothing: every key of the old
  object that the new one lacks stays on the node with its old value, contrary to the
  specification's invariant that the node carries exactly the keys of the latest mapping.
\<close>
theorem styleVars_alias_leak:
  assumes "synced st h" and "distinct (map fst (heap st (props h)))"
    and "m \<noteq> props h" and "distinct (map fst (heap st m))"
    and "styleVars_update h (Ref (props h)) st = Inr (st2, h2)"
    and "styleVars_update h2 (Ref m) st2 = Inr (st3, h3)"
  shows "heap st2 (props h) = [] \<and> props h3 = m \<and>
         (\<forall>k. k \<notin> keys (heap st m) \<longrightarrow> style st3 (custom_name k) = style_view (heap st (props h)) k)"
proof -
  let ?A = "heap st (props h)"
  have "filter (\<lambda>e. fst e \<notin> keys ?A) ?A = []" by (simp add: filter_empty_conv keys_def)
  then have hp2: "heap st2 = (heap st)(props h := [])" and p2: "props h2 = props h"
    using styleVars_update_heap [OF assms(5)] by simp_all
  have s2: "style st2 (custom_name k) = style_view ?A k" for k
    using styleVars_update_style [OF assms(2,5), of k] assms(1) by (auto simp: synced_def)
  have d3: "distinct (map fst (heap st2 m))" using assms(3,4) hp2 by simp
  have "style st3 (custom_name k) = style_view ?A k" if "k \<notin> keys (heap st m)" for k
    using styleVars_update_style [OF d3 assms(6), of k] that assms(3) hp2 p2 s2 by (simp add: keys_def)
  moreover have "props h3 = m" using styleVars_update_heap [OF assms(6)] by simp
  ultimately show ?thesis using hp2 by simp
qed

theorem styleVars_alias_leak_witness:
  "synced (fold set_entry (heap alias_state 0) alias_state) \<lparr>props = 0\<rparr> \<and>
   style (fst (projr (styleVars_update (snd (projr (styleVars_update \<lparr>props = 0\<rparr> (Ref 0)
            (fold set_entry (heap alias_state 0) alias_state))))
          (Ref 1) (fst (projr (styleVars_update \<lparr>props = 0\<rparr> (Ref 0)
            (fold set_entry (heap alias_state 0) alias_state))))))) (custom_name ''a'') = Some ''1''"
proof -
  define st where "st = fold set_entry (heap alias_state 0) alias_state"
  define st2 where "st2 = fst (projr (styleVars_update \<lparr>props = 0\<rparr> (Ref 0) st))"
  define h2 where "h2 = snd (projr (styleVars_update \<lparr>props = 0\<rparr> (Ref 0) st))"
  define st3 where "st3 = fst (projr (styleVars_update h2 (Ref 1) st2))"
  define h3 where "h3 = snd (projr (styleVars_update h2 (Ref 1) st2))"
  have hs: "heap st = heap alias_state" unfolding st_def by (rule heap_fold_set_entry)
  have ss: "style st = [custom_name ''a'' \<mapsto> ''1'']"
    by (simp add: st_def alias_state_def setProperty_def Let_def fun_eq_iff)
  have sy: "synced st \<lparr>props = 0\<rparr>"
    by (simp add: synced_def ss hs alias_state_def style_view_def declared_value_def)
  have d0: "distinct (map fst (heap st (props \<lparr>props = 0\<rparr>)))" and d1: "distinct (map fst (heap st 1))"
    by (simp_all add: hs alias_state_def)
  have r2: "styleVars_update \<lparr>props = 0\<rparr> (Ref (props \<lparr>props = 0\<rparr>)) st = Inr (st2, h2)"
    by (simp add: st2_def h2_def Let_def)
  have r3: "styleVars_update h2 (Ref 1) st2 = Inr (st3, h3)"
    by (simp add: st3_def h3_def Let_def)
  have "style st3 (custom_name ''a'') = style_view (heap st 0) ''a''"
    using styleVars_alias_leak [OF sy d0 _ d1 r2 r3] by (simp add: hs alias_state_def keys_def)
  then have "style st3 (custom_name ''a'') = Some ''1''"
    by (simp add: hs alias_state_def style_view_def declared_value_def)
  then show ?thesis using sy by (simp add: st_def st2_def h2_def st3_def)
qed


text \<open>
  C5. \<^verbatim>\<open>update\<close> mutates the object the caller passed before: after the call that
  object holds only the keys the new mapping lacks; every other object is unchanged.
\<close>
theorem styleVars_update_deletes_from_old_props:
  "styleVars_update h (Ref n) st = Inr (st', h') \<Longrightarrow>
   heap st' = (heap st)(props h := filter (\<lambda>e. fst e \<notin> keys (heap st n)) (heap st (props h)))"
  using styleVars_update_heap by blast

theorem styleVars_update_deletes_from_old_props_witness:
  "heap (fst (projr (styleVars_update \<lparr>props = 0\<rparr> (Ref 1) example_state))) 0 = [(''a'', JStr ''1'')]"
proof -
  obtain st' h' where run: "styleVars_update \<lparr>props = 0\<rparr> (Ref 1) example_state = Inr (st', h')"
    by (simp add: Let_def)
  from styleVars_update_deletes_from_old_props [OF run] have "heap st' 0 = [(''a'', JStr ''1'')]"
    by (simp add: example_state_def keys_def)
  with run show ?thesis by simp
qed

text \<open>
  C6. After a mount and fresh-literal updates, the custom properties on the node are exactly
  the keys of the last mapping if and only if none of its values converts to the empty
  string: a key whose value is \<^verbatim>\<open>null\<close> or \<^verbatim>\<open>""\<close> is absent from the node.
\<close>
theorem styleVars_literals_keys_iff:
  assumes "no_custom_props st" and "\<forall>obj \<in> set (obj0 # objs). distinct (map fst obj)"
    and "svelte_style_run obj0 objs st = Inr (st', h')"
  shows "{k. style st' (custom_name k) \<noteq> None} = keys (last (obj0 # objs))
     \<longleftrightarrow> (\<forall>v \<in> snd ` set (last (obj0 # objs)). css_value v \<noteq> '''')"
proof -
  let ?o = "last (obj0 # objs)"
  from svelte_style_run_synced [OF assms(1,2)] assms(3)
  have s: "\<forall>k. style st' (custom_name k) = style_view ?o k" by (auto simp: synced_def)
  have d: "distinct (map fst ?o)" using assms(2) by (simp add: last_in_set)
  have "{k. style_view ?o k \<noteq> None} = keys ?o \<longleftrightarrow> (\<forall>v \<in> snd ` set ?o. css_value v \<noteq> '''')"
  proof
    assume L: "{k. style_view ?o k \<noteq> None} = keys ?o"
    show "\<forall>v \<in> snd ` set ?o. css_value v \<noteq> ''''"
    proof
      fix v
      assume "v \<in> snd ` set ?o"
      then obtain k where kv: "(k, v) \<in> set ?o" by auto
      with d have "map_of ?o k = Some v" by (rule map_of_is_SomeI)
      moreover from kv have "k \<in> keys ?o" by (force simp: keys_def)
      with L have "style_view ?o k \<noteq> None" by blast
      ultimately show "css_value v \<noteq> ''''"
        by (simp add: style_view_def declared_value_def split: if_splits)
    qed
  next
    assume R: "\<forall>v \<in> snd ` set ?o. css_value v \<noteq> ''''"
    show "{k. style_view ?o k \<noteq> None} = keys ?o"
    proof (intro set_eqI iffI)
      fix k
      assume "k \<in> {k. style_view ?o k \<noteq> None}"
      then show "k \<in> keys ?o" by (cases "k \<in> keys ?o") auto
    next
      fix k
      assume "k \<in> keys ?o"
      then obtain v where v: "map_of ?o k = Some v"
        using map_of_eq_None_iff [of ?o k] by (auto simp: keys_def)
      then have "(k, v) \<in> set ?o" by (rule map_of_SomeD)
      with R have "css_value v \<noteq> ''''" by force
      with v show "k \<in> {k. style_view ?o k \<noteq> None}"
        by (simp add: style_view_def declared_value_def)
    qed
  qed
  with s show ?thesis by simp
qed

theorem styleVars_literals_keys_iff_witness:
  "no_custom_props example_state
   \<and> {k. style (fst (projr (svelte_style_run [(''a'', JNull)] [] example_state))) (custom_name k) \<noteq> None}
       \<noteq> keys [(''a'', JNull)]"
proof -
  have n: "no_custom_props example_state" by (simp add: no_custom_props_def example_state_def)
  have d: "\<forall>obj \<in> set ([(''a'', JNull)] # []). distinct (map fst obj)" by simp
  obtain st' h' where run: "svelte_style_run [(''a'', JNull)] [] example_state = Inr (st', h')"
    by (simp add: svelte_style_run_def mount_literal_def alloc_object_def)
  from styleVars_literals_keys_iff [OF n d run] n run show ?thesis by simp
qed

end
