(* ===== verification/Chart.thy ===== *)
theory Chart
  imports Prelude
begin

text \<open>
  The Svelte action \<^verbatim>\<open>uPlotAction\<close> and its helper \<^verbatim>\<open>makePlotOptions\<close> of
  \<^verbatim>\<open>src/lib/actions.ts\<close> (lines 23--60). The action builds a two-series sparkline
  with the uPlot library on mount, and on every update replaces the plotted arrays of the
  same chart instance and re-assigns the second series' stroke and fill as functions that
  derive the colour strings when uPlot redraws.

  Both libraries are interfaces here. colord is the record \<open>'c colord_ops\<close> of the four
  operations the code calls (\<^verbatim>\<open>colord(...)\<close>, \<^verbatim>\<open>alpha\<close>, \<^verbatim>\<open>lighten\<close>,
  \<^verbatim>\<open>toHslString\<close>) over an abstract colour type \<open>'c\<close>; every lemma holds for any
  implementation of them. uPlot is a store of chart instances (\<open>chart_world\<close>) with the
  operations the code uses: the constructor, \<^verbatim>\<open>setData\<close>, assignment to
  \<^verbatim>\<open>series[i].stroke\<close> / \<^verbatim>\<open>.fill\<close>, and the deferred redraw: \<^verbatim>\<open>setData\<close> only
  queues a commit, which uPlot runs as a microtask after the current task (\<open>flush\<close>).
  A series style is a string or a producer function, as uPlot accepts both.
\<close>

section \<open>The colour interface\<close>

record 'c colord_ops =
  c_parse :: "string \<Rightarrow> 'c"
  c_alpha :: "rat \<Rightarrow> 'c \<Rightarrow> 'c"
  c_lighten :: "rat \<Rightarrow> 'c \<Rightarrow> 'c"
  c_toHslString :: "'c \<Rightarrow> string"

section \<open>PlotData and the options\<close>

record 'c plot_data =
  pd_x :: "rat list"
  pd_y :: "rat list"
  pd_color :: "'c option"

datatype paint = PaintStr string | PaintFn "unit \<Rightarrow> string"

record series_opts =
  s_stroke :: "paint option"
  s_fill :: "paint option"

record plot_options =
  o_width :: nat
  o_height :: nat
  o_pxAlign :: bool
  o_cursor_show :: bool
  o_select_show :: bool
  o_legend_show :: bool
  o_x_time :: bool
  o_axes_show :: "bool list"
  o_series :: "series_opts list"

text \<open>\<^verbatim>\<open>color.alpha(0.7).lighten(0.2).toHslString()\<close> and its fill twin.\<close>

definition stroke_string :: "'c colord_ops \<Rightarrow> 'c \<Rightarrow> string" where
  "stroke_string ops color = c_toHslString ops (c_lighten ops (2/10) (c_alpha ops (7/10) color))"

definition fill_string :: "'c colord_ops \<Rightarrow> 'c \<Rightarrow> string" where
  "fill_string ops color = c_toHslString ops (c_lighten ops (2/10) (c_alpha ops (5/10) color))"

text \<open>\<^verbatim>\<open>color || colord("#fff")\<close>: a colord object is always truthy.\<close>

definition color_or_white :: "'c colord_ops \<Rightarrow> 'c option \<Rightarrow> 'c" where
  "color_or_white ops color = (case color of None \<Rightarrow> c_parse ops ''#fff'' | Some c \<Rightarrow> c)"

definition makePlotOptions :: "'c colord_ops \<Rightarrow> 'c \<Rightarrow> plot_options" where
  "makePlotOptions ops color =
     (let stroke = stroke_string ops color;
          fill = fill_string ops color
      in \<lparr>o_width = 180, o_height = 15, o_pxAlign = False,
          o_cursor_show = False, o_select_show = False, o_legend_show = False,
          o_x_time = False, o_axes_show = [False, False],
          o_series = [\<lparr>s_stroke = None, s_fill = None\<rparr>,
                      \<lparr>s_stroke = Some (PaintStr stroke), s_fill = Some (PaintStr fill)\<rparr>]\<rparr>)"

section \<open>The uPlot instances\<close>

text \<open>What a redraw paints: the data and, per series, the resolved stroke and fill.\<close>

type_synonym frame = "rat list list \<times> (string option \<times> string option) list"

record uplot =
  u_opts :: plot_options
  u_node :: nat
  u_data :: "rat list list"
  u_series :: "series_opts list"
  u_pending :: bool
  u_alive :: bool
  u_frame :: "frame option"

record chart_world =
  plots :: "nat \<Rightarrow> uplot option"
  next_plot :: nat

text \<open>\<^verbatim>\<open>new uPlot(opts, data, node)\<close>: a fresh instance with the option's series, its first draw queued.\<close>

definition new_uplot :: "plot_options \<Rightarrow> rat list list \<Rightarrow> nat \<Rightarrow> chart_world \<Rightarrow> chart_world \<times> nat" where
  "new_uplot opts data node w =
     (let i = next_plot w;
          p = \<lparr>u_opts = opts, u_node = node, u_data = data, u_series = o_series opts,
               u_pending = True, u_alive = True, u_frame = None\<rparr>
      in (w\<lparr>plots := (plots w)(i \<mapsto> p), next_plot := Suc i\<rparr>, i))"

definition map_plot :: "nat \<Rightarrow> (uplot \<Rightarrow> uplot) \<Rightarrow> chart_world \<Rightarrow> chart_world" where
  "map_plot i f w = w\<lparr>plots := (plots w)(i := map_option f (plots w i))\<rparr>"

text \<open>\<^verbatim>\<open>plot.setData(data)\<close>: the arrays are replaced and a commit is queued.\<close>

definition setData :: "nat \<Rightarrow> rat list list \<Rightarrow> chart_world \<Rightarrow> chart_world" where
  "setData i data = map_plot i (\<lambda>p. p\<lparr>u_data := data, u_pending := True\<rparr>)"

text \<open>\<^verbatim>\<open>plot.series[k].stroke = f\<close> and \<^verbatim>\<open>plot.series[k].fill = f\<close>.\<close>

definition set_series_stroke :: "nat \<Rightarrow> nat \<Rightarrow> paint \<Rightarrow> chart_world \<Rightarrow> chart_world" where
  "set_series_stroke i k f =
     map_plot i (\<lambda>p. p\<lparr>u_series := (u_series p)[k := (u_series p ! k)\<lparr>s_stroke := Some f\<rparr>]\<rparr>)"

definition set_series_fill :: "nat \<Rightarrow> nat \<Rightarrow> paint \<Rightarrow> chart_world \<Rightarrow> chart_world" where
  "set_series_fill i k f =
     map_plot i (\<lambda>p. p\<lparr>u_series := (u_series p)[k := (u_series p ! k)\<lparr>s_fill := Some f\<rparr>]\<rparr>)"

text \<open>\<^verbatim>\<open>plot.destroy()\<close>: uPlot's release of the canvas, listeners and observers.\<close>

definition destroy_plot :: "nat \<Rightarrow> chart_world \<Rightarrow> chart_world" where
  "destroy_plot i = map_plot i (\<lambda>p. p\<lparr>u_alive := False\<rparr>)"

fun resolve :: "paint option \<Rightarrow> string option" where
  "resolve None = None"
| "resolve (Some (PaintStr s)) = Some s"
| "resolve (Some (PaintFn f)) = Some (f ())"

definition draw :: "uplot \<Rightarrow> uplot" where
  "draw p =
     (if u_pending p \<and> u_alive p
      then p\<lparr>u_frame := Some (u_data p, map (\<lambda>s. (resolve (s_stroke s), resolve (s_fill s))) (u_series p)),
             u_pending := False\<rparr>
      else p)"

text \<open>The queued commits run once the current task has returned.\<close>

definition flush :: "chart_world \<Rightarrow> chart_world" where
  "flush w = w\<lparr>plots := (\<lambda>i. map_option draw (plots w i))\<rparr>"

section \<open>The action\<close>

text \<open>The object the action returns, with the closure variable \<^verbatim>\<open>plot\<close>; it has no \<^verbatim>\<open>destroy\<close>.\<close>

record chart_action =
  ca_plot :: nat
  ca_destroy :: "(chart_world \<Rightarrow> chart_world) option"

definition uPlotAction ::
  "'c colord_ops \<Rightarrow> nat \<Rightarrow> 'c plot_data \<Rightarrow> chart_world \<Rightarrow> chart_world \<times> chart_action" where
  "uPlotAction ops node data w =
     (let options = makePlotOptions ops (color_or_white ops (pd_color data));
          (w', plot) = new_uplot options [pd_x data, pd_y data] node w
      in (w', \<lparr>ca_plot = plot, ca_destroy = None\<rparr>))"

definition uPlotAction_update ::
  "'c colord_ops \<Rightarrow> chart_action \<Rightarrow> 'c plot_data \<Rightarrow> chart_world \<Rightarrow> chart_world" where
  "uPlotAction_update ops a newData w =
     (let w1 = setData (ca_plot a) [pd_x newData, pd_y newData] w;
          w2 = set_series_stroke (ca_plot a) 1
                 (PaintFn (\<lambda>_. stroke_string ops (color_or_white ops (pd_color newData)))) w1
      in set_series_fill (ca_plot a) 1
           (PaintFn (\<lambda>_. fill_string ops (color_or_white ops (pd_color newData)))) w2)"

section \<open>The Svelte lifecycle of one element\<close>

text \<open>
  On unmount Svelte calls the returned object's \<^verbatim>\<open>destroy\<close> when there is one. The
  lifecycle of the chart elements of a page is a step relation: an element is mounted
  (the action runs), updated with new data, unmounted, or the queued redraws run.
\<close>

definition svelte_unmount :: "chart_action \<Rightarrow> chart_world \<Rightarrow> chart_world" where
  "svelte_unmount a w = (case ca_destroy a of None \<Rightarrow> w | Some d \<Rightarrow> d w)"

type_synonym 'c page = "chart_world \<times> (nat \<Rightarrow> chart_action option)"

inductive lifecycle_step :: "'c colord_ops \<Rightarrow> 'c page \<Rightarrow> 'c page \<Rightarrow> bool" for ops where
  mount: "m node = None \<Longrightarrow> uPlotAction ops node d w = (w', a) \<Longrightarrow>
            lifecycle_step ops (w, m) (w', m(node \<mapsto> a))"
| update: "m node = Some a \<Longrightarrow>
            lifecycle_step ops (w, m) (uPlotAction_update ops a d w, m)"
| unmount: "m node = Some a \<Longrightarrow>
            lifecycle_step ops (w, m) (svelte_unmount a w, m(node := None))"
| redraw: "lifecycle_step ops (w, m) (flush w, m)"

definition empty_page :: "'c page" where
  "empty_page = (\<lparr>plots = Map.empty, next_plot = 0\<rparr>, Map.empty)"

inductive reachable_page :: "'c colord_ops \<Rightarrow> 'c page \<Rightarrow> bool" for ops where
  start: "reachable_page ops empty_page"
| step: "reachable_page ops s \<Longrightarrow> lifecycle_step ops s t \<Longrightarrow> reachable_page ops t"

section \<open>Scenarios and the page invariant\<close>

definition series_paint :: "series_opts \<Rightarrow> string option \<times> string option" where
  "series_paint s = (resolve (s_stroke s), resolve (s_fill s))"

definition page_inv :: "'c page \<Rightarrow> bool" where
  "page_inv s \<longleftrightarrow> dom (plots (fst s)) = {..< next_plot (fst s)}
     \<and> (\<forall>i p. plots (fst s) i = Some p \<longrightarrow> u_alive p)
     \<and> (\<forall>a \<in> ran (snd s). ca_destroy a = None)"

text \<open>
  The invariant the specification gives \<^verbatim>\<open>PlotData\<close>: \<open>x\<close> and \<open>y\<close> have the same length
  and \<open>x\<close> is non-decreasing; for the arrays a chart holds, exactly the pair \<open>[x, y]\<close>.
\<close>

definition wf_chart_data :: "rat list list \<Rightarrow> bool" where
  "wf_chart_data ds = (case ds of [x, y] \<Rightarrow> length x = length y \<and> sorted x | _ \<Rightarrow> False)"

definition wf_plot_data :: "'c plot_data \<Rightarrow> bool" where
  "wf_plot_data d = wf_chart_data [pd_x d, pd_y d]"

definition empty_world :: chart_world where
  "empty_world = \<lparr>plots = Map.empty, next_plot = 0\<rparr>"

text \<open>
  A concrete implementation of the colour interface, used to run the properties on concrete
  inputs: colours are strings and each operation appends a tag.
\<close>

definition tag_colord :: "string colord_ops" where
  "tag_colord = \<lparr>c_parse = id, c_alpha = (\<lambda>a c. c @ ''/a''), c_lighten = (\<lambda>l c. c @ ''/l''),
                 c_toHslString = id\<rparr>"

definition sample_data :: "string plot_data" where
  "sample_data = \<lparr>pd_x = [0, 1], pd_y = [5, 7], pd_color = None\<rparr>"

definition sample_data' :: "string plot_data" where
  "sample_data' = \<lparr>pd_x = [1, 2], pd_y = [7, 3], pd_color = Some ''#f00''\<rparr>"

section \<open>Lemmas\<close>

lemma plots_map_plot [simp]:
  "plots (map_plot i f w) j = (if j = i then map_option f (plots w j) else plots w j)"
  by (simp add: map_plot_def)

lemma next_plot_map_plot [simp]: "next_plot (map_plot i f w) = next_plot w"
  by (simp add: map_plot_def)

lemma plots_flush [simp]: "plots (flush w) i = map_option draw (plots w i)"
  by (simp add: flush_def)

lemma dom_plots_flush [simp]: "dom (plots (flush w)) = dom (plots w)"
  by (auto simp: flush_def)

lemma next_plot_flush [simp]: "next_plot (flush w) = next_plot w"
  by (simp add: flush_def)

lemma uPlotAction_result:
  assumes "uPlotAction ops node d w = (w', a)"
  shows "ca_plot a = next_plot w \<and> ca_destroy a = None \<and> next_plot w' = Suc (next_plot w)
    \<and> plots w' = (plots w)(next_plot w \<mapsto>
         \<lparr>u_opts = makePlotOptions ops (color_or_white ops (pd_color d)), u_node = node,
          u_data = [pd_x d, pd_y d], u_series = o_series (makePlotOptions ops (color_or_white ops (pd_color d))),
          u_pending = True, u_alive = True, u_frame = None\<rparr>)"
  using assms by (auto simp: uPlotAction_def new_uplot_def Let_def)

lemma plots_uPlotAction_update:
  "plots (uPlotAction_update ops a d w) j =
     (if j = ca_plot a then
        map_option (\<lambda>p. p\<lparr>u_data := [pd_x d, pd_y d], u_pending := True,
          u_series := (u_series p)[1 := (u_series p ! 1)
             \<lparr>s_stroke := Some (PaintFn (\<lambda>_. stroke_string ops (color_or_white ops (pd_color d)))),
              s_fill := Some (PaintFn (\<lambda>_. fill_string ops (color_or_white ops (pd_color d))))\<rparr>]\<rparr>)
          (plots w j)
      else plots w j)"
proof (cases "plots w j")
  case None
  then show ?thesis
    by (auto simp: uPlotAction_update_def setData_def set_series_stroke_def set_series_fill_def Let_def)
next
  case (Some p)
  then show ?thesis
    by (cases "1 < length (u_series p)")
       (auto simp: uPlotAction_update_def setData_def set_series_stroke_def set_series_fill_def Let_def
          list_update_beyond not_less)
qed

lemma dom_plots_uPlotAction_update [simp]: "dom (plots (uPlotAction_update ops a d w)) = dom (plots w)"
  by (auto simp: plots_uPlotAction_update split: if_splits)

lemma alive_uPlotAction_update:
  "plots (uPlotAction_update ops a d w) j = Some p' \<Longrightarrow> \<exists>p. plots w j = Some p \<and> u_alive p' = u_alive p"
  by (auto simp: plots_uPlotAction_update split: if_splits)

lemma next_plot_uPlotAction_update [simp]: "next_plot (uPlotAction_update ops a d w) = next_plot w"
  by (simp add: uPlotAction_update_def setData_def set_series_stroke_def set_series_fill_def Let_def)



lemma u_alive_draw [simp]: "u_alive (draw p) = u_alive p"
  by (simp add: draw_def)

lemma lifecycle_step_inv: "lifecycle_step ops s t \<Longrightarrow> page_inv s \<Longrightarrow> page_inv t"
proof (induction rule: lifecycle_step.induct)
  case (mount m node d w w' a)
  from uPlotAction_result [OF mount.hyps(2)] mount.prems show ?case
    by (auto simp: page_inv_def ran_def lessThan_Suc split: if_splits)
next
  case (update m node a d w)
  then show ?case
    by (auto simp: page_inv_def dest!: alive_uPlotAction_update)
next
  case (unmount m node a w)
  then have "ca_destroy a = None" by (auto simp: page_inv_def ran_def)
  with unmount.prems show ?case
    by (auto simp: page_inv_def svelte_unmount_def ran_def)
next
  case (redraw w m)
  then show ?case by (auto simp: page_inv_def)
qed

lemma reachable_page_inv: "reachable_page ops s \<Longrightarrow> page_inv s"
proof (induction rule: reachable_page.induct)
  case start
  show ?case by (simp add: page_inv_def empty_page_def)
next
  case (step s t)
  then show ?case by (blast intro: lifecycle_step_inv)
qed

lemma empty_page_eq: "empty_page = (empty_world, Map.empty)"
  by (simp add: empty_page_def empty_world_def)

text \<open>
  \<^verbatim>\<open>update\<close> installs the new arrays as given: the chart's data is well formed exactly when
  the caller's sample is; the binder neither checks nor repairs the invariant.
\<close>

lemma uPlotAction_update_data_wf:
  assumes "plots w (ca_plot a) = Some p"
  shows "\<exists>q. plots (uPlotAction_update ops a d w) (ca_plot a) = Some q \<and> u_data q = [pd_x d, pd_y d] \<and>
             (wf_chart_data (u_data q) \<longleftrightarrow> wf_plot_data d)"
  using assms by (simp add: plots_uPlotAction_update wf_plot_data_def)

section \<open>Properties of uPlotAction\<close>

text \<open>
  C7. \<^verbatim>\<open>update\<close> works in place: it constructs no chart instance and keeps the
  instance's node and options, and after the queued redraw that same instance shows the
  new arrays, the backdrop series unchanged and the second series painted with the stroke
  and fill derived from the new colour (white when absent).
\<close>
theorem uPlotAction_update_in_place:
  assumes "plots w (ca_plot a) = Some p" and "u_alive p" and "u_series p = [s0, s1]"
  shows "next_plot (flush (uPlotAction_update ops a d w)) = next_plot w
    \<and> (\<exists>p'. plots (flush (uPlotAction_update ops a d w)) (ca_plot a) = Some p'
         \<and> u_node p' = u_node p \<and> u_opts p' = u_opts p
         \<and> u_frame p' = Some ([pd_x d, pd_y d],
              [series_paint s0,
               (Some (stroke_string ops (color_or_white ops (pd_color d))),
                Some (fill_string ops (color_or_white ops (pd_color d))))]))"
  using assms by (simp add: plots_uPlotAction_update draw_def series_paint_def)

theorem uPlotAction_update_in_place_witness:
  "map_option u_frame (plots (flush (uPlotAction_update tag_colord (snd (uPlotAction tag_colord 0 sample_data empty_world))
       sample_data' (fst (uPlotAction tag_colord 0 sample_data empty_world)))) 0)
   = Some (Some ([[1, 2], [7, 3]], [(None, None), (Some ''#f00/a/l'', Some ''#f00/a/l'')]))"
proof -
  obtain w1 a where m: "uPlotAction tag_colord 0 sample_data empty_world = (w1, a)" by fastforce
  note r = uPlotAction_result [OF m]
  have p: "plots w1 (ca_plot a) = Some (the (plots w1 (ca_plot a)))" using r by simp
  have al: "u_alive (the (plots w1 (ca_plot a)))" using r by simp
  have s: "u_series (the (plots w1 (ca_plot a))) =
     [\<lparr>s_stroke = None, s_fill = None\<rparr>,
      \<lparr>s_stroke = Some (PaintStr ''#fff/a/l''), s_fill = Some (PaintStr ''#fff/a/l'')\<rparr>]"
    using r by (simp add: makePlotOptions_def stroke_string_def fill_string_def color_or_white_def
        tag_colord_def sample_data_def)
  from uPlotAction_update_in_place [OF p al s, of tag_colord sample_data'] r m show ?thesis
    by (auto simp: series_paint_def stroke_string_def fill_string_def color_or_white_def tag_colord_def
        sample_data'_def empty_world_def)
qed


text \<open>
  C8. Updating in place is observationally equivalent to rebuilding: the frame drawn after
  \<^verbatim>\<open>update\<close> with new data equals the frame a fresh mount with that data draws, so
  the colour transform of \<^verbatim>\<open>update\<close> matches that of the attach path.
\<close>
theorem uPlotAction_update_matches_attach:
  assumes "uPlotAction ops node d0 w = (w1, a)"
  shows "map_option u_frame (plots (flush (uPlotAction_update ops a d w1)) (ca_plot a))
       = map_option u_frame (plots (flush (fst (uPlotAction ops node d w))) (next_plot w))"
proof -
  obtain w2 a2 where m2: "uPlotAction ops node d w = (w2, a2)" by fastforce
  show ?thesis
    using uPlotAction_result [OF assms] uPlotAction_result [OF m2]
    by (simp add: m2 plots_uPlotAction_update draw_def makePlotOptions_def Let_def)
qed

theorem uPlotAction_update_matches_attach_witness:
  "map_option u_frame (plots (flush (uPlotAction_update tag_colord (snd (uPlotAction tag_colord 0 sample_data empty_world))
       sample_data' (fst (uPlotAction tag_colord 0 sample_data empty_world)))) 0)
   = map_option u_frame (plots (flush (fst (uPlotAction tag_colord 0 sample_data' empty_world))) 0)"
proof -
  obtain w1 a where m: "uPlotAction tag_colord 0 sample_data empty_world = (w1, a)" by fastforce
  from uPlotAction_update_matches_attach [OF m, of sample_data'] uPlotAction_result [OF m] m show ?thesis
    by (simp add: empty_world_def)
qed


text \<open>
  C9. Mounting with no colour draws the data with the backdrop series bare and the second
  series stroked and filled with the strings derived from \<^verbatim>\<open>colord("#fff")\<close>.
\<close>
theorem uPlotAction_default_white:
  assumes "uPlotAction ops node d w = (w1, a)" and "pd_color d = None"
  shows "map_option u_frame (plots (flush w1) (ca_plot a)) =
     Some (Some ([pd_x d, pd_y d],
       [(None, None), (Some (stroke_string ops (c_parse ops ''#fff'')), Some (fill_string ops (c_parse ops ''#fff'')))]))"
  using uPlotAction_result [OF assms(1)] assms(2)
  by (simp add: draw_def makePlotOptions_def color_or_white_def Let_def)

theorem uPlotAction_default_white_witness:
  "map_option u_frame (plots (flush (fst (uPlotAction tag_colord 0 sample_data empty_world))) 0)
   = Some (Some ([[0, 1], [5, 7]], [(None, None), (Some ''#fff/a/l'', Some ''#fff/a/l'')]))"
proof -
  obtain w1 a where m: "uPlotAction tag_colord 0 sample_data empty_world = (w1, a)" by fastforce
  have c: "pd_color sample_data = None" by (simp add: sample_data_def)
  from uPlotAction_default_white [OF m c] uPlotAction_result [OF m] m show ?thesis
    by (simp add: empty_world_def stroke_string_def fill_string_def tag_colord_def sample_data_def)
qed


text \<open>
  C10. Chart instances are never released: in every state the page reaches by mounts,
  updates, unmounts and redraws in any order, the live uPlot instances are exactly all the
  instances ever constructed, those of unmounted elements included, because the object
  the action returns has no \<^verbatim>\<open>destroy\<close>.
\<close>
theorem chart_instances_never_released:
  assumes "reachable_page ops (w, m)"
  shows "{i. \<exists>p. plots w i = Some p \<and> u_alive p} = {..< next_plot w}"
proof -
  from reachable_page_inv [OF assms] have inv: "page_inv (w, m)" .
  show ?thesis
  proof (intro set_eqI iffI)
    fix i
    assume "i \<in> {i. \<exists>p. plots w i = Some p \<and> u_alive p}"
    then have "i \<in> dom (plots w)" by auto
    with inv show "i \<in> {..< next_plot w}" by (simp add: page_inv_def)
  next
    fix i
    assume "i \<in> {..< next_plot w}"
    with inv have "i \<in> dom (plots w)" by (simp add: page_inv_def)
    then obtain p where "plots w i = Some p" by auto
    with inv show "i \<in> {i. \<exists>p. plots w i = Some p \<and> u_alive p}" by (auto simp: page_inv_def)
  qed
qed

theorem chart_instances_never_released_witness:
  "reachable_page tag_colord (fst (uPlotAction tag_colord 0 sample_data empty_world), Map.empty)
   \<and> {i. \<exists>p. plots (fst (uPlotAction tag_colord 0 sample_data empty_world)) i = Some p \<and> u_alive p} = {0}"
proof -
  obtain w1 a where m: "uPlotAction tag_colord 0 sample_data empty_world = (w1, a)" by fastforce
  have r0: "reachable_page tag_colord (empty_world, Map.empty)"
    using reachable_page.start [of tag_colord] by (simp add: empty_page_eq)
  have "lifecycle_step tag_colord (empty_world, Map.empty) (w1, [0 \<mapsto> a])"
    by (rule lifecycle_step.mount [OF _ m]) simp
  with r0 have r1: "reachable_page tag_colord (w1, [0 \<mapsto> a])" by (rule reachable_page.step)
  have "lifecycle_step tag_colord (w1, [0 \<mapsto> a]) (svelte_unmount a w1, ([0 \<mapsto> a])(0 := None))"
    by (rule lifecycle_step.unmount) simp
  moreover have "svelte_unmount a w1 = w1"
    using uPlotAction_result [OF m] by (simp add: svelte_unmount_def)
  ultimately have "lifecycle_step tag_colord (w1, [0 \<mapsto> a]) (w1, Map.empty)" by simp
  with r1 have r2: "reachable_page tag_colord (w1, Map.empty)" by (rule reachable_page.step)
  from chart_instances_never_released [OF r2] have "{i. \<exists>p. plots w1 i = Some p \<and> u_alive p} = {..< next_plot w1}" .
  with r2 m uPlotAction_result [OF m] show ?thesis by (simp add: empty_world_def lessThan_Suc)
qed

end
