(* ===== verification/EventLoop.thy ===== *)
theory EventLoop
  imports Prelude "HOL-Library.Word" "HOL-Library.Product_Lexorder"
begin

text \<open>
  \<^verbatim>\<open>sleep\<close> (\<^verbatim>\<open>src/lib/utils.ts\<close>, lines 36-38) returns
  \<^verbatim>\<open>new Promise(resolve => setTimeout(resolve, ms))\<close>. Its meaning is the host's timer
  model, which this theory states from the HTML standard: the \<^verbatim>\<open>timeout\<close> argument of
  \<^verbatim>\<open>setTimeout\<close> is a WebIDL \<^verbatim>\<open>long\<close>, so the number is truncated and wrapped to a
  signed 32-bit integer (a \<open>32 word\<close> read with \<open>sint\<close>), and a negative result is
  clamped to 0. Timers are kept ordered by deadline and then by creation, and when the
  clock reaches a time every due timer runs in that order; a timer's task resolves the
  promise it was given. The clamp to 4 ms for timers nested more than five levels deep is
  not modelled (\<^verbatim>\<open>sleep\<close> is not called from timer callbacks in this code), and
  neither are the continuations that run when a promise resolves: the model records the
  order in which promises resolve.
\<close>

section \<open>WebIDL conversion of the timeout argument\<close>

definition js_to_int32 :: "js_number \<Rightarrow> 32 word" where
  "js_to_int32 x = (case js_to_integer x of Some i \<Rightarrow> word_of_int i | None \<Rightarrow> 0)"

definition timeout_ms :: "js_number \<Rightarrow> nat" where
  "timeout_ms x = (let t = sint (js_to_int32 x) in if t < 0 then 0 else nat t)"

section \<open>Timers and the event loop\<close>

record timer =
  t_deadline :: nat
  t_seq :: nat
  t_promise :: nat

definition timer_key :: "timer \<Rightarrow> nat \<times> nat" where
  "timer_key x = (t_deadline x, t_seq x)"

record loop_state =
  now :: nat
  timers :: "timer list"
  next_seq :: nat
  next_promise :: nat
  resolved :: "nat list"

definition new_promise :: "loop_state \<Rightarrow> nat \<times> loop_state" where
  "new_promise st = (next_promise st, st\<lparr>next_promise := Suc (next_promise st)\<rparr>)"

definition setTimeout :: "nat \<Rightarrow> js_number \<Rightarrow> loop_state \<Rightarrow> loop_state" where
  "setTimeout p ms st =
     st\<lparr>timers := insort_key timer_key
                   \<lparr>t_deadline = now st + timeout_ms ms, t_seq = next_seq st, t_promise = p\<rparr>
                   (timers st),
       next_seq := Suc (next_seq st)\<rparr>"

definition sleep :: "js_number \<Rightarrow> loop_state \<Rightarrow> nat \<times> loop_state" where
  "sleep ms st = (let (p, st1) = new_promise st in (p, setTimeout p ms st1))"

fun fire_due :: "nat \<Rightarrow> timer list \<Rightarrow> timer list \<times> nat list" where
  "fire_due t [] = ([], [])"
| "fire_due t (x # ts) =
     (if t_deadline x \<le> t then (let (rest, fired) = fire_due t ts in (rest, t_promise x # fired))
      else (x # ts, []))"

definition advance :: "nat \<Rightarrow> loop_state \<Rightarrow> loop_state" where
  "advance t st =
     (let (rest, fired) = fire_due t (timers st)
      in st\<lparr>now := max (now st) t, timers := rest, resolved := resolved st @ fired\<rparr>)"

definition loop_inv :: "loop_state \<Rightarrow> bool" where
  "loop_inv st =
     (sorted (map timer_key (timers st)) \<and>
      (\<forall>x\<in>set (timers st). now st \<le> t_deadline x \<and> t_seq x < next_seq st \<and> t_promise x < next_promise st) \<and>
      (\<forall>p\<in>set (resolved st). p < next_promise st))"

definition init_loop :: loop_state where
  "init_loop = \<lparr>now = 0, timers = [], next_seq = 0, next_promise = 0, resolved = []\<rparr>"

inductive loop_step :: "loop_state \<Rightarrow> loop_state \<Rightarrow> bool" where
  sleep_call: "sleep ms st = (p, st') \<Longrightarrow> loop_step st st'"
| time_passes: "loop_step st (advance t st)"

inductive reachable_loop :: "loop_state \<Rightarrow> bool" where
  reachable_init: "reachable_loop init_loop"
| reachable_step: "reachable_loop st \<Longrightarrow> loop_step st st' \<Longrightarrow> reachable_loop st'"

lemma fire_due_eq:
  "fire_due t ts = (dropWhile (\<lambda>x. t_deadline x \<le> t) ts, map t_promise (takeWhile (\<lambda>x. t_deadline x \<le> t) ts))"
  by (induction ts) auto

lemma sorted_key_deadline:
  "sorted (map timer_key (x # ts)) \<Longrightarrow> y \<in> set ts \<Longrightarrow> t_deadline x \<le> t_deadline y"
  by (auto simp: timer_key_def less_eq_prod_def)

lemma dropWhile_due_later:
  assumes "sorted (map timer_key ts)" "y \<in> set (dropWhile (\<lambda>x. t_deadline x \<le> t) ts)"
  shows "t < t_deadline y"
  using assms
proof (induction ts)
  case (Cons x ts)
  show ?case
  proof (cases "t_deadline x \<le> t")
    case True
    then show ?thesis using Cons by simp
  next
    case False
    then show ?thesis using Cons sorted_key_deadline [of x ts y] by (auto split: if_splits)
  qed
qed simp

lemma set_takeWhile_due:
  assumes "sorted (map timer_key ts)"
  shows "set (takeWhile (\<lambda>x. t_deadline x \<le> t) ts) = {x \<in> set ts. t_deadline x \<le> t}"
proof -
  have "set ts = set (takeWhile (\<lambda>x. t_deadline x \<le> t) ts) \<union> set (dropWhile (\<lambda>x. t_deadline x \<le> t) ts)"
    by (metis set_append takeWhile_dropWhile_id)
  then show ?thesis
    using dropWhile_due_later [OF assms, where t = t] by (fastforce dest: set_takeWhileD)
qed

lemma sorted_map_split:
  "sorted (map f xs) \<Longrightarrow> x \<in> set xs \<Longrightarrow> y \<in> set xs \<Longrightarrow> f x < f y \<Longrightarrow>
   \<exists>as bs cs. xs = as @ x # bs @ y # cs"
proof (induction xs)
  case (Cons z zs)
  show ?case
  proof (cases "x = z")
    case True
    with Cons.prems have "y \<in> set zs" by auto
    then obtain bs cs where "zs = bs @ y # cs" by (meson split_list)
    with True show ?thesis by (metis append_Nil)
  next
    case False
    with Cons.prems have x: "x \<in> set zs" by auto
    have "y \<noteq> z" using Cons.prems x by (auto simp: not_less)
    with Cons.prems x have "\<exists>as bs cs. zs = as @ x # bs @ y # cs" by (intro Cons.IH) auto
    then show ?thesis by (metis append_Cons)
  qed
qed simp

lemma sorted_map_takeWhile: "sorted (map f xs) \<Longrightarrow> sorted (map f (takeWhile P xs))"
  by (induction xs) (auto dest: set_takeWhileD)

lemma sleep_result:
  "sleep ms st = (p, st1) \<longleftrightarrow>
   p = next_promise st \<and>
   st1 = st\<lparr>next_promise := Suc (next_promise st),
            timers := insort_key timer_key
              \<lparr>t_deadline = now st + timeout_ms ms, t_seq = next_seq st, t_promise = next_promise st\<rparr>
              (timers st),
            next_seq := Suc (next_seq st)\<rparr>"
  by (auto simp: sleep_def new_promise_def setTimeout_def)

lemma resolved_advance:
  "resolved (advance t st) = resolved st @ map t_promise (takeWhile (\<lambda>x. t_deadline x \<le> t) (timers st))"
  by (simp add: advance_def fire_due_eq)

lemma timers_advance:
  "timers (advance t st) = dropWhile (\<lambda>x. t_deadline x \<le> t) (timers st)"
  by (simp add: advance_def fire_due_eq)

lemma loop_inv_sleep:
  assumes "loop_inv st" "sleep ms st = (p, st1)"
  shows "loop_inv st1"
  using assms by (auto simp: loop_inv_def sleep_result sorted_insort_key set_insort_key)

lemma advance_counters [simp]:
  "now (advance t st) = max (now st) t"
  "next_seq (advance t st) = next_seq st"
  "next_promise (advance t st) = next_promise st"
  by (simp_all add: advance_def fire_due_eq)

lemma loop_inv_advance:
  assumes "loop_inv st"
  shows "loop_inv (advance t st)"
proof -
  let ?P = "\<lambda>x. t_deadline x \<le> t"
  have s: "sorted (map timer_key (timers st))" using assms by (simp add: loop_inv_def)
  have "sorted (map timer_key (dropWhile ?P (timers st)))"
    using s by (simp add: dropWhile_eq_drop drop_map [symmetric] sorted_wrt_drop)
  moreover have "x \<in> set (dropWhile ?P (timers st)) \<Longrightarrow> max (now st) t \<le> t_deadline x" for x
    using dropWhile_due_later [OF s, of x t] assms set_dropWhileD [of x ?P "timers st"]
    by (auto simp: loop_inv_def)
  ultimately show ?thesis
    using assms
    by (auto simp: loop_inv_def timers_advance resolved_advance dest: set_dropWhileD set_takeWhileD)
qed

lemma resolved_advance_sleep:
  assumes "loop_inv st" "sleep ms st = (p, st1)"
  shows "p \<in> set (resolved (advance t st1)) \<longleftrightarrow> now st + timeout_ms ms \<le> t"
proof -
  let ?new = "\<lparr>t_deadline = now st + timeout_ms ms, t_seq = next_seq st, t_promise = p\<rparr>"
  have s1: "sorted (map timer_key (timers st1))"
    using loop_inv_sleep [OF assms] by (simp add: loop_inv_def)
  have p: "p = next_promise st" and ts1: "timers st1 = insort_key timer_key ?new (timers st)"
    and r1: "resolved st1 = resolved st"
    using assms(2) by (auto simp: sleep_result)
  have old: "\<forall>x\<in>set (timers st). t_promise x < p" "p \<notin> set (resolved st)"
    using assms(1) p by (auto simp: loop_inv_def)
  have "set (takeWhile (\<lambda>x. t_deadline x \<le> t) (timers st1)) =
        {x \<in> insert ?new (set (timers st)). t_deadline x \<le> t}"
    using set_takeWhile_due [OF s1] ts1 by (simp add: set_insort_key)
  moreover have "p \<in> t_promise ` {x \<in> insert ?new (set (timers st)). t_deadline x \<le> t} \<longleftrightarrow>
                 t_deadline ?new \<le> t" (is "?l \<longleftrightarrow> ?r")
  proof
    assume ?l
    then obtain x where x: "x \<in> insert ?new (set (timers st))" "t_deadline x \<le> t" "p = t_promise x"
      by blast
    then have "x = ?new" using old(1) by (metis insert_iff less_irrefl)
    with x(2) show ?r by metis
  next
    assume ?r
    then show ?l by (intro image_eqI [of _ _ ?new]) auto
  qed
  ultimately show ?thesis
    using old(2) by (simp add: resolved_advance r1)
qed

lemma sint_word_of_int_32:
  "sint (word_of_int i :: 32 word) = (if i mod 2^32 < 2^31 then i mod 2^32 else i mod 2^32 - 2^32)"
proof -
  define m :: int where "m = i mod 2^32"
  have m: "0 \<le> m" "m < 2^32" by (simp_all add: m_def)
  have "sint (word_of_int i :: 32 word) = (m + 2^31) mod 2^32 - 2^31"
    by (simp add: int_word_sint m_def mod_add_left_eq)
  also have "\<dots> = (if m < 2^31 then m else m - 2^32)"
  proof (cases "m < 2^31")
    case True
    then show ?thesis using m by simp
  next
    case False
    have "(m + 2^31) mod 2^32 = (m - 2^31 + 1 * 2^32) mod (2^32::int)" by (simp add: add.commute)
    also have "\<dots> = (m - 2^31) mod 2^32" by (simp only: mod_mult_self1)
    also have "\<dots> = m - 2^31" using False m by (intro mod_pos_pos_trivial) simp_all
    finally show ?thesis using False by simp
  qed
  finally show ?thesis by (simp add: m_def)
qed

lemma clamp_sint_word_of_int:
  "(let t = sint (word_of_int i :: 32 word) in if t < 0 then 0 else nat t) =
   (if i mod 2^32 < 2^31 then nat (i mod 2^32) else 0)"
  by (simp add: sint_word_of_int_32 Let_def)

lemma timeout_ms_int: "timeout_ms (Num (of_int i)) = (let t = sint (word_of_int i :: 32 word) in if t < 0 then 0 else nat t)"
  by (simp add: timeout_ms_def js_to_int32_def)

lemma timeout_ms_numeral [simp]:
  "timeout_ms (Num (numeral n)) =
   (if numeral n mod 2^32 < (2^31::int) then nat (numeral n mod 2^32) else 0)"
proof -
  have "timeout_ms (Num (of_int (numeral n))) =
        (if numeral n mod 2^32 < (2^31::int) then nat (numeral n mod 2^32) else 0)"
    by (simp only: timeout_ms_int clamp_sint_word_of_int)
  then show ?thesis by (simp only: of_int_numeral)
qed

lemma loop_inv_init: "loop_inv init_loop"
  by (simp add: loop_inv_def init_loop_def)


text \<open>
  The event-loop model is well formed: in every state reachable by calls to
  \<^verbatim>\<open>sleep\<close> and the passing of time, the timer list is ordered, no timer is overdue, and
  the sequence and promise counters are fresh.
\<close>

lemma reachable_loop_inv: "reachable_loop st \<Longrightarrow> loop_inv st"
proof (induction rule: reachable_loop.induct)
  case reachable_init
  then show ?case by (rule loop_inv_init)
next
  case (reachable_step st st')
  from reachable_step.hyps(2) reachable_step.IH show ?case
    by (cases rule: loop_step.cases) (auto intro: loop_inv_sleep loop_inv_advance)
qed

text \<open>Two sleeps in a row: both timers are due once the later deadline has passed.\<close>

lemma two_sleeps_due:
  assumes "loop_inv st" "sleep a st = (pa, st1)" "sleep b st1 = (pb, st2)"
    and "now st + max (timeout_ms a) (timeout_ms b) \<le> t"
  defines "A \<equiv> \<lparr>t_deadline = now st + timeout_ms a, t_seq = next_seq st, t_promise = pa\<rparr>"
    and "B \<equiv> \<lparr>t_deadline = now st + timeout_ms b, t_seq = Suc (next_seq st), t_promise = pb\<rparr>"
  shows "sorted (map timer_key (takeWhile (\<lambda>x. t_deadline x \<le> t) (timers st2)))
    \<and> A \<in> set (takeWhile (\<lambda>x. t_deadline x \<le> t) (timers st2))
    \<and> B \<in> set (takeWhile (\<lambda>x. t_deadline x \<le> t) (timers st2))"
proof -
  have inv1: "loop_inv st1" using loop_inv_sleep [OF assms(1,2)] .
  have s2: "sorted (map timer_key (timers st2))"
    using loop_inv_sleep [OF inv1 assms(3)] by (simp add: loop_inv_def)
  have ts2: "timers st2 = insort_key timer_key B (insort_key timer_key A (timers st))"
    using assms(2,3) by (auto simp: sleep_result A_def B_def)
  have "A \<in> set (takeWhile (\<lambda>x. t_deadline x \<le> t) (timers st2))"
       "B \<in> set (takeWhile (\<lambda>x. t_deadline x \<le> t) (timers st2))"
    unfolding set_takeWhile_due [OF s2] using assms(4)
    by (simp_all add: ts2 set_insort_key A_def B_def)
  with s2 show ?thesis by (simp add: sorted_map_takeWhile)
qed

lemma resolved_split:
  assumes "sorted (map timer_key ts)" "x \<in> set ts" "y \<in> set ts" "timer_key x < timer_key y"
  shows "\<exists>xs ys zs. rs @ map t_promise ts = xs @ t_promise x # ys @ t_promise y # zs"
proof -
  obtain as bs cs where "ts = as @ x # bs @ y # cs"
    using sorted_map_split [OF assms] by blast
  then show ?thesis
    by (intro exI [of _ "rs @ map t_promise as"] exI [of _ "map t_promise bs"]
          exI [of _ "map t_promise cs"]) simp
qed

text \<open>C26. Two sleeps started one after the other resolve in the order of their delays:
  the first one first when its delay is not longer (equal delays run first-in, first-out),
  the second one first when its delay is shorter.\<close>

theorem sleep_fifo:
  assumes "loop_inv st" "sleep a st = (pa, st1)" "sleep b st1 = (pb, st2)"
    and "now st + max (timeout_ms a) (timeout_ms b) \<le> t"
  shows "(timeout_ms a \<le> timeout_ms b \<longrightarrow>
            (\<exists>xs ys zs. resolved (advance t st2) = xs @ pa # ys @ pb # zs)) \<and>
         (timeout_ms b < timeout_ms a \<longrightarrow>
            (\<exists>xs ys zs. resolved (advance t st2) = xs @ pb # ys @ pa # zs))"
proof -
  let ?A = "\<lparr>t_deadline = now st + timeout_ms a, t_seq = next_seq st, t_promise = pa\<rparr>"
  let ?B = "\<lparr>t_deadline = now st + timeout_ms b, t_seq = Suc (next_seq st), t_promise = pb\<rparr>"
  let ?ts = "takeWhile (\<lambda>x. t_deadline x \<le> t) (timers st2)"
  have due: "sorted (map timer_key ?ts)" "?A \<in> set ?ts" "?B \<in> set ?ts"
    using two_sleeps_due [OF assms] by simp_all
  have r: "resolved (advance t st2) = resolved st2 @ map t_promise ?ts" by (rule resolved_advance)
  have ab: "timeout_ms a \<le> timeout_ms b \<Longrightarrow> timer_key ?A < timer_key ?B"
    and ba: "timeout_ms b < timeout_ms a \<Longrightarrow> timer_key ?B < timer_key ?A"
    by (simp_all add: timer_key_def less_prod_def)
  show ?thesis
    using resolved_split [OF due(1,2,3) ab, of "resolved st2"]
      resolved_split [OF due(1,3,2) ba, of "resolved st2"]
    by (simp add: r)
qed

theorem sleep_fifo_witness:
  "loop_inv init_loop \<and>
   sleep (Num 5) init_loop = (0, snd (sleep (Num 5) init_loop)) \<and>
   sleep (Num 3) (snd (sleep (Num 5) init_loop)) = (1, snd (sleep (Num 3) (snd (sleep (Num 5) init_loop)))) \<and>
   now init_loop + max (timeout_ms (Num 5)) (timeout_ms (Num 3)) \<le> 5 \<and>
   (\<exists>xs ys zs. resolved (advance 5 (snd (sleep (Num 3) (snd (sleep (Num 5) init_loop))))) = xs @ 1 # ys @ 0 # zs)"
proof -
  have i: "loop_inv init_loop" by (rule loop_inv_init)
  have s1: "sleep (Num 5) init_loop = (0, snd (sleep (Num 5) init_loop))"
    by (simp add: sleep_def new_promise_def init_loop_def)
  have s2: "sleep (Num 3) (snd (sleep (Num 5) init_loop)) = (1, snd (sleep (Num 3) (snd (sleep (Num 5) init_loop))))"
    by (simp add: sleep_def new_promise_def setTimeout_def init_loop_def)
  have d: "now init_loop + max (timeout_ms (Num 5)) (timeout_ms (Num 3)) \<le> 5"
    by (simp add: init_loop_def)
  show ?thesis using i s1 s2 d sleep_fifo [OF i s1 s2 d] by simp
qed

text \<open>C25. A promise returned by \<^verbatim>\<open>sleep(ms)\<close> is resolved once the clock has advanced to
  the call time plus the converted delay, and not a moment before.\<close>

theorem sleep_resolves_at_deadline:
  assumes "loop_inv st" "sleep ms st = (p, st1)"
  shows "p \<in> set (resolved (advance t st1)) \<longleftrightarrow> now st + timeout_ms ms \<le> t"
  using resolved_advance_sleep [OF assms] .

theorem sleep_resolves_at_deadline_witness:
  "loop_inv init_loop \<and> sleep (Num 5) init_loop = (0, snd (sleep (Num 5) init_loop)) \<and>
   0 \<notin> set (resolved (advance 4 (snd (sleep (Num 5) init_loop)))) \<and>
   0 \<in> set (resolved (advance 5 (snd (sleep (Num 5) init_loop))))"
proof -
  have i: "loop_inv init_loop" by (rule loop_inv_init)
  have s: "sleep (Num 5) init_loop = (0, snd (sleep (Num 5) init_loop))"
    by (simp add: sleep_def new_promise_def init_loop_def)
  show ?thesis
    using i s sleep_resolves_at_deadline [OF i s, of 4] sleep_resolves_at_deadline [OF i s, of 5]
    by (simp add: init_loop_def)
qed



end
