(* ===== verification/Stores.thy ===== *)
theory Stores
  imports Chart
begin

text \<open>
  The theme cells of \<^verbatim>\<open>src/lib/stores.ts\<close>: six colours and a font family, each a Svelte
  \<^verbatim>\<open>writable\<close> store. \<^verbatim>\<open>svelte/store\<close> is a library the sources only call; its
  \<^verbatim>\<open>writable\<close> is modelled from its documented contract. A store holds its value, its
  subscribers in subscription order (the JavaScript \<^verbatim>\<open>Set\<close> iterates in insertion order), and
  the record of deliveries \<open>w_log\<close>, one pair (subscriber, value) per call of a subscriber's
  \<^verbatim>\<open>run\<close> callback. \<^verbatim>\<open>subscribe\<close> calls the new subscriber at once with the current
  value; \<^verbatim>\<open>set\<close> stores the value and calls every subscriber only when
  \<^verbatim>\<open>safe_not_equal(old, new)\<close> holds. That test is the parameter \<open>neq\<close>: for a string it is
  \<open>\<noteq>\<close> (\<open>neq_string\<close>), for an object such as a colord colour it is always true
  (\<open>neq_object\<close>), so a colour store notifies on every \<^verbatim>\<open>set\<close>. Stores are reached by
  \<open>store_step\<close> (subscribe, unsubscribe, set, update) from a fresh \<^verbatim>\<open>writable(v)\<close>.
  The library's global queue that defers nested \<^verbatim>\<open>set\<close> calls made inside a subscriber
  is not modelled: the subscribers here only re-derive their own state.
\<close>

record 'a writable =
  w_value :: 'a
  w_subs :: "nat list"
  w_next :: nat
  w_log :: "(nat \<times> 'a) list"

definition writable :: "'a \<Rightarrow> 'a writable" where
  "writable v = \<lparr>w_value = v, w_subs = [], w_next = 0, w_log = []\<rparr>"

definition neq_object :: "'c \<Rightarrow> 'c \<Rightarrow> bool" where
  "neq_object a b = True"

definition neq_string :: "string \<Rightarrow> string \<Rightarrow> bool" where
  "neq_string a b = (a \<noteq> b)"

definition store_set :: "('a \<Rightarrow> 'a \<Rightarrow> bool) \<Rightarrow> 'a \<Rightarrow> 'a writable \<Rightarrow> 'a writable" where
  "store_set neq v s =
     (if neq (w_value s) v
      then s\<lparr>w_value := v, w_log := w_log s @ map (\<lambda>i. (i, v)) (w_subs s)\<rparr>
      else s)"

definition store_update :: "('a \<Rightarrow> 'a \<Rightarrow> bool) \<Rightarrow> ('a \<Rightarrow> 'a) \<Rightarrow> 'a writable \<Rightarrow> 'a writable" where
  "store_update neq f s = store_set neq (f (w_value s)) s"

definition subscribe :: "'a writable \<Rightarrow> nat \<times> 'a writable" where
  "subscribe s =
     (w_next s, s\<lparr>w_subs := w_subs s @ [w_next s], w_next := Suc (w_next s),
                 w_log := w_log s @ [(w_next s, w_value s)]\<rparr>)"

definition unsubscribe :: "nat \<Rightarrow> 'a writable \<Rightarrow> 'a writable" where
  "unsubscribe i s = s\<lparr>w_subs := removeAll i (w_subs s)\<rparr>"

inductive store_step :: "('a \<Rightarrow> 'a \<Rightarrow> bool) \<Rightarrow> 'a writable \<Rightarrow> 'a writable \<Rightarrow> bool" for neq where
  step_subscribe: "store_step neq s (snd (subscribe s))"
| step_unsubscribe: "store_step neq s (unsubscribe i s)"
| step_set: "store_step neq s (store_set neq v s)"
| step_update: "store_step neq s (store_update neq f s)"

record 'c theme =
  foregroundColor :: "'c writable"
  backgroundColor :: "'c writable"
  titleColor :: "'c writable"
  accentColor :: "'c writable"
  arcTrackColor :: "'c writable"
  arcCapColor :: "'c writable"
  fontFamily :: "string writable"

definition theme_init :: "'c colord_ops \<Rightarrow> 'c theme" where
  "theme_init ops =
     \<lparr>foregroundColor = writable (c_parse ops ''#ffffff''),
      backgroundColor = writable (c_parse ops ''rgba(0, 0, 0, 0.5)''),
      titleColor = writable (c_parse ops ''#00ff00''),
      accentColor = writable (c_parse ops ''#ff00ff''),
      arcTrackColor = writable (c_parse ops ''rgba(255, 255, 255, 0.2)''),
      arcCapColor = writable (c_parse ops ''#ffffff''),
      fontFamily = writable ''Inter, Avenir, Helvetica, Arial, sans-serif''\<rparr>"

primrec last_seen :: "nat \<Rightarrow> (nat \<times> 'a) list \<Rightarrow> 'a option" where
  "last_seen i [] = None"
| "last_seen i (e # es) =
     (case last_seen i es of Some v \<Rightarrow> Some v | None \<Rightarrow> if fst e = i then Some (snd e) else None)"

definition store_synced :: "'a writable \<Rightarrow> bool" where
  "store_synced s = (\<forall>i\<in>set (w_subs s). last_seen i (w_log s) = Some (w_value s))"

definition store_inv :: "'a writable \<Rightarrow> bool" where
  "store_inv s =
     (store_synced s \<and> (\<forall>i\<in>set (w_subs s). i < w_next s) \<and> (\<forall>e\<in>set (w_log s). fst e < w_next s))"

lemma last_seen_append:
  "last_seen i (xs @ ys) = (case last_seen i ys of None \<Rightarrow> last_seen i xs | Some v \<Rightarrow> Some v)"
  by (induction xs) (auto split: option.splits)

lemma last_seen_map:
  "last_seen i (map (\<lambda>j. (j, v)) js) = (if i \<in> set js then Some v else None)"
  by (induction js) (auto split: option.splits)

lemma store_inv_subscribe: "store_inv s \<Longrightarrow> store_inv (snd (subscribe s))"
  by (auto simp: store_inv_def store_synced_def subscribe_def last_seen_append last_seen_map)

lemma store_inv_unsubscribe: "store_inv s \<Longrightarrow> store_inv (unsubscribe i s)"
  by (auto simp: store_inv_def store_synced_def unsubscribe_def)

lemma store_inv_set:
  "(\<And>a b. \<not> neq a b \<Longrightarrow> a = b) \<Longrightarrow> store_inv s \<Longrightarrow> store_inv (store_set neq v s)"
  by (auto simp: store_inv_def store_synced_def store_set_def last_seen_append last_seen_map)

lemma store_inv_writable: "store_inv (writable v)"
  by (simp add: store_inv_def store_synced_def writable_def)


lemma store_inv_update:
  "(\<And>a b. \<not> neq a b \<Longrightarrow> a = b) \<Longrightarrow> store_inv s \<Longrightarrow> store_inv (store_update neq f s)"
  unfolding store_update_def by (rule store_inv_set)

lemma store_steps_inv:
  assumes "\<And>a b. \<not> neq a b \<Longrightarrow> a = b" "store_inv s0" "(store_step neq)\<^sup>*\<^sup>* s0 s"
  shows "store_inv s"
  using assms(3)
proof (induction rule: rtranclp_induct)
  case base
  then show ?case by (rule assms(2))
next
  case (step s s')
  from step.hyps(2) step.IH show ?case
    by (cases rule: store_step.cases)
       (auto intro: store_inv_subscribe store_inv_unsubscribe store_inv_set [OF assms(1)]
          store_inv_update [OF assms(1)])
qed

lemma theme_init_colour_inv:
  "sel \<in> set [foregroundColor, backgroundColor, titleColor, accentColor, arcTrackColor, arcCapColor] \<Longrightarrow>
   store_inv (sel (theme_init ops))"
  by (auto simp: theme_init_def store_inv_writable)

lemma store_steps_synced:
  assumes "\<And>a b. \<not> neq a b \<Longrightarrow> a = b" "store_inv s0" "(store_step neq)\<^sup>*\<^sup>* s0 s" "i \<in> set (w_subs s)"
  shows "last_seen i (w_log s) = Some (w_value s)"
  using store_steps_inv [OF assms(1-3)] assms(4) by (simp add: store_inv_def store_synced_def)

end
