(* ===== verification/Telemetry.thy ===== *)
theory Telemetry
  imports Prelude
begin

text \<open>
  The shape of a telemetry snapshot, from the ambient interfaces of
  \<^verbatim>\<open>src/vite-env.d.ts\<close>: one record per interface, a JavaScript \<^verbatim>\<open>number\<close> as
  \<open>js_number\<close>, \<^verbatim>\<open>T | null\<close> and an optional field \<^verbatim>\<open>f?: T\<close> as \<open>T option\<close>, an array as a
  list, a two-element tuple as a pair, and \<^verbatim>\<open>Record<string, T>\<close> as an association list in
  insertion order. Field names that several interfaces share are prefixed with the
  interface (\<open>proc_\<close>, \<open>disk_\<close>, \<open>sensor_\<close>, \<open>summary_\<close>), since the fields of all records of
  a theory share one name space. The snapshot has no behaviour in the sources; the theory
  holds the data the widgets receive and the accessors the properties use.
\<close>

record cpu_data =
  cpu_usage :: js_number

record process =
  proc_name :: string
  command :: string
  pid :: string
  parent_pid :: "string option"
  cpu_usage_percent :: js_number
  mem_usage_percent :: js_number
  mem_usage_bytes :: js_number
  read_bytes_per_sec :: js_number
  write_bytes_per_sec :: js_number
  total_read_bytes :: js_number
  total_write_bytes :: js_number
  process_state :: "string \<times> string"
  uid :: "string option"
  user :: "string option"

record disk_data =
  disk_name :: string
  mount_point :: string
  free_space :: "js_number option"
  used_space :: "js_number option"
  total_space :: "js_number option"

record mem_data =
  mem_total_in_kib :: js_number
  mem_used_in_kib :: js_number
  use_percent :: "js_number option"

record net_data =
  rx :: js_number
  tx :: js_number
  total_rx :: js_number
  total_tx :: js_number

record temp_data =
  sensor_name :: string
  temperature :: js_number

record battery_data =
  charge_percent :: js_number
  secs_until_full :: "js_number option"
  secs_until_empty :: "js_number option"
  power_consumption_rate_watts :: js_number
  health_percent :: js_number

record summary_data =
  summary_uptime :: string
  summary_hostname :: "string option"
  summary_kernel_name :: "string option"
  summary_kernel_version :: "string option"
  summary_os_version :: "string option"

record io_data =
  read_bytes :: js_number
  write_bytes :: js_number

record data =
  last_collection_time :: js_number
  uptime :: string
  hostname :: "string option"
  kernel_name :: "string option"
  kernel_version :: "string option"
  os_version :: "string option"
  list_of_processes :: "process list"
  cpu :: "cpu_data list"
  load_avg :: "js_number list"
  memory :: mem_data
  swap :: mem_data
  disks :: "disk_data list"
  io :: "(string \<times> io_data) list"
  local_ip :: "string option"
  network :: net_data
  temperature_sensors :: "temp_data list"
  list_of_batteries :: "battery_data list option"
  arc :: "mem_data option"
  gpu :: "(string \<times> mem_data) list option"

end
