(* ===== verification/Lint.thy ===== *)
theory Lint
  imports Main
begin

text \<open>
  The ESLint configuration \<^verbatim>\<open>src/.eslintrc.cjs\<close> as data, and the part of ESLint's
  documented semantics that gives it meaning for the sources. The exported object is the
  record \<open>eslintrc\<close>; a rule's value is a severity, spelled as a string
  (\<^verbatim>\<open>"off"\<close>, \<^verbatim>\<open>"warn"\<close>, \<^verbatim>\<open>"error"\<close>) or a number (0, 1, 2), optionally with an
  options object (\<open>rule_setting\<close>); tables of the object literal (\<^verbatim>\<open>env\<close>, \<^verbatim>\<open>globals\<close>,
  \<^verbatim>\<open>rules\<close>) are association lists in source order, where, as in a JavaScript object
  literal, a later duplicate key wins (\<open>lookup_last\<close>). The \<^verbatim>\<open>svelte3/typescript\<close> setting is
  a function that loads the TypeScript compiler; only its key is kept.

  From ESLint: an inline \<^verbatim>\<open>/* eslint rule: value */\<close> comment overrides the configured
  severity of that rule in its file (\<open>file_directives\<close> holds the one comment of the sources,
  line 1 of \<^verbatim>\<open>src/vite-env.d.ts\<close>); an \<^verbatim>\<open>overrides\<close> entry applies to the files its glob
  patterns match, a pattern without a slash being matched against the base name, and the
  last matching entry wins (\<open>processor_for\<close>). Rules configured only by the shared presets of
  \<^verbatim>\<open>extends\<close> are not modelled: their effective severity is \<open>None\<close>. The linter's checks
  themselves are not modelled.
\<close>

datatype rule_value = RStr string | RNum nat

datatype option_value = OStr string | OBool bool

datatype rule_setting = Sev rule_value | SevOpts rule_value "(string \<times> option_value) list"

datatype severity = Off | Warn | Error

record override =
  ov_files :: "string list"
  ov_processor :: string

record eslint_config =
  cfg_root :: bool
  cfg_parser :: string
  cfg_extends :: "string list"
  cfg_plugins :: "string list"
  cfg_overrides :: "override list"
  cfg_settings :: "string list"
  cfg_sourceType :: string
  cfg_ecmaVersion :: nat
  cfg_env :: "(string \<times> bool) list"
  cfg_globals :: "(string \<times> bool) list"
  cfg_rules :: "(string \<times> rule_setting) list"

text \<open>The exported configuration object, \<^verbatim>\<open>module.exports\<close> (lines 1-53).\<close>

definition eslintrc :: eslint_config where
  "eslintrc =
     \<lparr>cfg_root = True,
      cfg_parser = ''@typescript-eslint/parser'',
      cfg_extends = [''eslint:recommended'', ''plugin:@typescript-eslint/recommended'',
                     ''plugin:import/recommended'', ''prettier''],
      cfg_plugins = [''svelte3'', ''@typescript-eslint''],
      cfg_overrides = [\<lparr>ov_files = [''*.svelte''], ov_processor = ''svelte3/svelte3''\<rparr>],
      cfg_settings = [''svelte3/typescript''],
      cfg_sourceType = ''module'',
      cfg_ecmaVersion = 2022,
      cfg_env = [(''browser'', True), (''es2017'', True), (''node'', True)],
      cfg_globals = [(''Data'', True), (''SummaryData'', True), (''CPUData'', True), (''MemData'', True),
                     (''NetData'', True), (''DiskData'', True), (''TempData'', True), (''IOData'', True),
                     (''BatteryData'', True), (''Process'', True)],
      cfg_rules =
        [(''@typescript-eslint/ban-ts-comment'', Sev (RStr ''off'')),
         (''@typescript-eslint/no-empty-function'', Sev (RStr ''off'')),
         (''@typescript-eslint/no-explicit-any'', Sev (RStr ''off'')),
         (''@typescript-eslint/no-non-null-assertion'', Sev (RStr ''off'')),
         (''@typescript-eslint/no-unused-vars'', Sev (RStr ''off'')),
         (''camelcase'', SevOpts (RStr ''error'') [(''properties'', OStr ''never''), (''ignoreDestructuring'', OBool True)]),
         (''eqeqeq'', Sev (RStr ''error'')),
         (''func-names'', Sev (RStr ''error'')),
         (''import/order'', Sev (RStr ''error'')),
         (''import/no-unresolved'', Sev (RStr ''off'')),
         (''no-unused-vars'', SevOpts (RStr ''error'') [(''varsIgnorePattern'', OStr ''^_''), (''argsIgnorePattern'', OStr ''^_'')]),
         (''no-var'', Sev (RStr ''error'')),
         (''prefer-arrow-callback'', Sev (RStr ''error'')),
         (''prefer-const'', Sev (RStr ''off'')),
         (''require-await'', Sev (RStr ''error''))]\<rparr>"

definition file_directives :: "string \<Rightarrow> (string \<times> rule_setting) list" where
  "file_directives path = (if path = ''src/vite-env.d.ts'' then [(''no-unused-vars'', Sev (RNum 0))] else [])"

text \<open>The names of the ambient interfaces that \<^verbatim>\<open>src/vite-env.d.ts\<close> declares, in order.\<close>

definition ambient_interfaces :: "string list" where
  "ambient_interfaces = [''CPUData'', ''Process'', ''DiskData'', ''MemData'', ''NetData'', ''TempData'',
                         ''BatteryData'', ''SummaryData'', ''IOData'', ''Data'']"

fun severity_of :: "rule_value \<Rightarrow> severity option" where
  "severity_of (RStr s) =
     (if s = ''off'' then Some Off else if s = ''warn'' then Some Warn
      else if s = ''error'' then Some Error else None)"
| "severity_of (RNum n) =
     (if n = 0 then Some Off else if n = 1 then Some Warn else if n = 2 then Some Error else None)"

fun setting_severity :: "rule_setting \<Rightarrow> severity option" where
  "setting_severity (Sev v) = severity_of v"
| "setting_severity (SevOpts v opts) = severity_of v"

fun setting_options :: "rule_setting \<Rightarrow> (string \<times> option_value) list" where
  "setting_options (Sev v) = []"
| "setting_options (SevOpts v opts) = opts"

definition basename :: "string \<Rightarrow> string" where
  "basename path = rev (takeWhile (\<lambda>c. c \<noteq> CHR ''/'') (rev path))"

fun glob_match :: "string \<Rightarrow> string \<Rightarrow> bool" where
  "glob_match (CHR ''*'' # sfx) path = (let b = basename path in CHR ''/'' \<notin> set sfx \<and> length sfx \<le> length b \<and> drop (length b - length sfx) b = sfx)"
| "glob_match pat path = (pat = basename path)"

definition processor_for :: "eslint_config \<Rightarrow> string \<Rightarrow> string option" where
  "processor_for cfg path =
     map_option ov_processor (find (\<lambda>ov. list_ex (\<lambda>p. glob_match p path) (ov_files ov)) (rev (cfg_overrides cfg)))"

definition lookup_last :: "('k \<times> 'v) list \<Rightarrow> 'k \<Rightarrow> 'v option" where
  "lookup_last xs k = map_of (rev xs) k"

definition effective_severity :: "eslint_config \<Rightarrow> string \<Rightarrow> string \<Rightarrow> severity option" where
  "effective_severity cfg path rule =
     (case lookup_last (file_directives path) rule of
        Some s \<Rightarrow> setting_severity s
      | None \<Rightarrow> (case lookup_last (cfg_rules cfg) rule of Some s \<Rightarrow> setting_severity s | None \<Rightarrow> None))"

definition effective_options :: "eslint_config \<Rightarrow> string \<Rightarrow> (string \<times> option_value) list" where
  "effective_options cfg rule =
     (case lookup_last (cfg_rules cfg) rule of Some s \<Rightarrow> setting_options s | None \<Rightarrow> [])"

text \<open>
  A well-formed configuration: no rule and no global is given twice (a duplicate key of the
  object literal would silently replace the first), every rule's severity is one ESLint
  accepts (anything else is a configuration error), and no options object repeats a key.
\<close>

definition wf_config :: "eslint_config \<Rightarrow> bool" where
  "wf_config cfg =
     (distinct (map fst (cfg_rules cfg)) \<and> distinct (map fst (cfg_globals cfg)) \<and>
      list_all (\<lambda>r. setting_severity (snd r) \<noteq> None) (cfg_rules cfg) \<and>
      list_all (\<lambda>r. distinct (map fst (setting_options (snd r)))) (cfg_rules cfg))"

lemma svelte_files_processor:
  "processor_for eslintrc ''src/App.svelte'' = Some ''svelte3/svelte3'' \<and>
   processor_for eslintrc ''src/lib/actions.ts'' = None"
  by (simp add: processor_for_def eslintrc_def basename_def)

text \<open>The configuration is well formed: rule and global names are distinct, every
  configured severity, and that of every inline directive in the sources, is one ESLint
  accepts, and no options object repeats a key.\<close>

lemma eslintrc_wf:
  "wf_config eslintrc \<and>
   list_all (\<lambda>f. list_all (\<lambda>r. setting_severity (snd r) \<noteq> None) (file_directives f))
     [''src/vite-env.d.ts'', ''src/lib/actions.ts'', ''src/lib/utils.ts'', ''src/lib/stores.ts'']"
  by (simp add: wf_config_def eslintrc_def file_directives_def)

text \<open>The ambient telemetry interfaces are lint-clean: the writable globals the
  configuration declares are exactly the interfaces \<^verbatim>\<open>src/vite-env.d.ts\<close> declares, so
  every other file may name them, and in that file, where they are declared but never used,
  the inline directive turns \<^verbatim>\<open>no-unused-vars\<close> off, while it stays an error, ignoring
  names that start with an underscore, in the other sources.\<close>

lemma ambient_interfaces_lint_clean:
  "set (map fst (filter snd (cfg_globals eslintrc))) = set ambient_interfaces \<and>
   effective_severity eslintrc ''src/vite-env.d.ts'' ''no-unused-vars'' = Some Off \<and>
   effective_severity eslintrc ''src/lib/actions.ts'' ''no-unused-vars'' = Some Error \<and>
   effective_options eslintrc ''no-unused-vars'' = [(''varsIgnorePattern'', OStr ''^_''), (''argsIgnorePattern'', OStr ''^_'')] \<and>
   effective_severity eslintrc ''src/vite-env.d.ts'' ''@typescript-eslint/no-unused-vars'' = Some Off"
  by (simp add: eslintrc_def ambient_interfaces_def insert_commute effective_severity_def
      effective_options_def lookup_last_def file_directives_def)

end
