(* ===== verification/Spec2Isabelle.thy ===== *)
theory Spec2Isabelle
  imports Utils StyleVars Chart EventLoop Stores Telemetry Lint
begin

text \<open>
  \<^bold>\<open>A verification model of the visualisation binding layer of toerings.\<close>

  toerings is a dashboard of machine telemetry drawn as small gauges and sparkline charts.
  Its TypeScript sources under \<^verbatim>\<open>src\<close> are two Svelte actions that bind rendering state to
  DOM elements (\<^verbatim>\<open>src/lib/actions.ts\<close>), formatting and windowing helpers
  (\<^verbatim>\<open>src/lib/utils.ts\<close>), the theme stores (\<^verbatim>\<open>src/lib/stores.ts\<close>) and the type of a
  telemetry snapshot (\<^verbatim>\<open>src/vite-env.d.ts\<close>). Data flows one way: a snapshot arrives, a
  widget derives a slice of it (for instance a bounded window of samples), and calls the
  \<^verbatim>\<open>update\<close> of the action bound to its element, which mutates the chart or the inline
  style in place; theme colours flow into the chart's colour parameter.

  \<^bold>\<open>Theories.\<close>
  \<^item> \<open>Prelude\<close>: JavaScript numbers as exact rationals plus \<^verbatim>\<open>NaN\<close> and the infinities (every
    finite double is a rational, and the only arithmetic the code does, division by 1024,
    is exact on the values it sees), truthiness, \<^verbatim>\<open><\<close>, \<^verbatim>\<open>>\<close>, \<^verbatim>\<open>===\<close>,
    \<^verbatim>\<open>ToIntegerOrInfinity\<close>, the exceptions, and shared list lemmas.
  \<^item> \<open>NumberFormat\<close>: \<^verbatim>\<open>Number.prototype.toFixed\<close> (ECMAScript), with its
    \<^verbatim>\<open>RangeError\<close>; values of at least \<open>10\<^sup>2\<^sup>1\<close> go through \<^verbatim>\<open>Number::toString\<close>, a parameter.
  \<^item> \<open>Utils\<close>: \<^verbatim>\<open>toMetric\<close> (utils.ts 1-12), its loop as \<open>toMetric_loop\<close>, a
    \<open>partial_function (option)\<close> because \<^verbatim>\<open>toMetric(Infinity)\<close> never returns;
    \<^verbatim>\<open>calcStrokeWidth\<close> (14-34) with JavaScript comparisons; \<^verbatim>\<open>saturatedPush\<close> (40-45),
    its shift loop \<open>shift_while\<close> again a \<open>partial_function (option)\<close> because a negative
    limit makes it spin; the in-place array is returned as the new contents.
  \<^item> \<open>StyleVars\<close>: the \<^verbatim>\<open>styleVars\<close> action (actions.ts 5-21) over an explicit DOM state:
    the element's inline style as a map, and a heap of the JavaScript objects passed as
    props, so that \<^verbatim>\<open>delete props[key]\<close> mutates the caller's object as in the code;
    \<^verbatim>\<open>setProperty\<close> follows CSSOM (an empty value removes the property).
  \<^item> \<open>Chart\<close>: the \<^verbatim>\<open>uPlotAction\<close> action and \<^verbatim>\<open>makePlotOptions\<close> (actions.ts 23-60).
    colord is the interface record \<open>colord_ops\<close> over an abstract colour type; uPlot is a
    store of chart instances whose \<^verbatim>\<open>setData\<close> queues a redraw, committed by \<open>flush\<close>, which
    resolves stroke and fill producers when it draws. The Svelte lifecycle (mount,
    update, unmount, redraw) is the inductive \<open>lifecycle_step\<close>.
  \<^item> \<open>EventLoop\<close>: \<^verbatim>\<open>sleep\<close> (utils.ts 36-38) over the HTML timer model: the delay is a
    WebIDL \<^verbatim>\<open>long\<close>, i.e. a \<open>32 word\<close> read with \<open>sint\<close> and clamped at 0; timers fire in
    deadline, then creation, order.
  \<^item> \<open>Stores\<close>: Svelte \<^verbatim>\<open>writable\<close> stores with subscribers and deliveries, and the theme
    of stores.ts (\<open>theme_init\<close>).
  \<^item> \<open>Telemetry\<close>: the snapshot interfaces of vite-env.d.ts as records.
  \<^item> \<open>Lint\<close>: the ESLint configuration \<^verbatim>\<open>src/.eslintrc.cjs\<close> as a record, the inline
    directive of vite-env.d.ts, and ESLint's resolution of a rule's effective severity.
  \<^item> This theory: the widgets that connect them, as the specification describes them
    (their Svelte components are not part of the sources): a chart following a theme
    colour (\<open>follow_colour\<close>) and a gauge feeding snapshots through a bounded window into a
    chart (\<open>sparkline_feed\<close>).

  \<^bold>\<open>What is proved.\<close> For \<^verbatim>\<open>styleVars\<close>: the exact style after attach and after any update,
  including the stale keys it removes, the mutation of the caller's previous props object,
  and, for every state, the leak that follows once the caller passes the same object twice.
  For \<^verbatim>\<open>uPlotAction\<close>: update mutates the existing instance, draws what a fresh attach
  would draw, defaults to white, and no chart instance is ever released (the action returns
  no \<^verbatim>\<open>destroy\<close>), an invariant of the lifecycle by rule induction. For
  \<^verbatim>\<open>saturatedPush\<close>: the window is the last \<open>limit\<close> elements, a negative limit diverges.
  For \<^verbatim>\<open>toMetric\<close>: it returns for every input but \<^verbatim>\<open>Infinity\<close>, bounds on the scaled
  value and the unit, monotonicity of the unit, the printed digits read back as the scaled
  value rounded to the precision, the \<^verbatim>\<open>"undefined"\<close> unit for every count past
  exabytes, and exactly when it throws (a \<^verbatim>\<open>RangeError\<close>). For \<^verbatim>\<open>calcStrokeWidth\<close>: the
  specified table and antitonicity on the positive integers, and its exact values on every
  other number. For \<^verbatim>\<open>sleep\<close>: resolution exactly at the deadline, resolution order following
  the delays, and the delay actually waited for an integer argument, with the 32-bit wrap.
  Across components: a theme colour of \<^verbatim>\<open>stores.ts\<close> reaches the chart it is bound to, and
  a gauge plots the latest window of samples.

  Lemmas that are not properties of the sources but of the modelled hosts and data are kept
  as documentation: the event-loop invariant (\<open>reachable_loop_inv\<close>), the store invariant
  (\<open>store_steps_synced\<close>), that \<^verbatim>\<open>update\<close> installs the arrays it is given without checking
  the \<^verbatim>\<open>PlotData\<close> invariant (\<open>uPlotAction_update_data_wf\<close>), and two checks of the lint
  configuration: it is well formed (\<open>eslintrc_wf\<close>), and its globals are exactly the ambient
  telemetry interfaces, whose declaring file turns \<^verbatim>\<open>no-unused-vars\<close> off
  (\<open>ambient_interfaces_lint_clean\<close>).

  \<^bold>\<open>Divergence and fuel.\<close> No fuel is used. The two loops that can run forever are
  \<open>partial_function (option)\<close> definitions: their termination is proved as
  \<open>\<exists>r. f x = Some r\<close> on the inputs where the code returns (through the closed form
  \<open>metric_steps\<close> for \<^verbatim>\<open>toMetric\<close>, whose termination is proved by a measure), and their
  divergence elsewhere by the definition's fixpoint induction.

  \<^bold>\<open>Not modelled.\<close> The checks ESLint performs and the rules it inherits from the
  presets of \<^verbatim>\<open>extends\<close>; the internals of uPlot (layout, canvas painting, scales) and of colord (colour arithmetic),
  used only through their interfaces; CSS value parsing and property priorities;
  \<^verbatim>\<open>Number::toString\<close> for values of at least \<open>10\<^sup>2\<^sup>1\<close> (a parameter of the model); prop values
  other than strings, \<^verbatim>\<open>null\<close> and \<^verbatim>\<open>undefined\<close> (their string conversion); the 4 ms clamp
  of deeply nested timers; the deferral queue of nested store updates.
\<close>

section \<open>Widgets connecting the components\<close>

text \<open>
  A chart bound to a theme colour: the widget subscribed to the store as subscriber \<open>i\<close>
  and, for every delivery addressed to it, calls the chart action's \<^verbatim>\<open>update\<close> with its data
  and the delivered colour. Deliveries to other subscribers leave the chart unchanged.
\<close>

definition follow_colour ::
  "'c colord_ops \<Rightarrow> nat \<Rightarrow> chart_action \<Rightarrow> 'c plot_data \<Rightarrow> (nat \<times> 'c) list \<Rightarrow> chart_world \<Rightarrow> chart_world" where
  "follow_colour ops i a d ds w =
     fold (\<lambda>e w. if fst e = i then uPlotAction_update ops a (d\<lparr>pd_color := Some (snd e)\<rparr>) w else w) ds w"

text \<open>
  A gauge's sparkline: for every snapshot, the selected sample is pushed into the window with
  \<^verbatim>\<open>saturatedPush\<close>, then the chart action's \<^verbatim>\<open>update\<close> receives the window as
  \<open>y\<close> and its indices as \<open>x\<close> (a non-temporal scale, as \<^verbatim>\<open>makePlotOptions\<close> sets).
\<close>

definition index_axis :: "nat \<Rightarrow> rat list" where
  "index_axis n = map of_nat [0..<n]"

fun sparkline_feed ::
  "'c colord_ops \<Rightarrow> chart_action \<Rightarrow> 'c option \<Rightarrow> (data \<Rightarrow> rat) \<Rightarrow> nat \<Rightarrow> data list \<Rightarrow>
   rat list \<Rightarrow> chart_world \<Rightarrow> (rat list \<times> chart_world) option" where
  "sparkline_feed ops a col pick limit [] win w = Some (win, w)"
| "sparkline_feed ops a col pick limit (d # ds) win w =
     (case saturatedPush win (pick d) (Num (of_nat limit)) of
        None \<Rightarrow> None
      | Some win' \<Rightarrow>
          sparkline_feed ops a col pick limit ds win'
            (uPlotAction_update ops a \<lparr>pd_x = index_axis (length win'), pd_y = win', pd_color = col\<rparr> w))"

text \<open>A sample selector and a concrete snapshot, used to run the properties.\<close>

definition first_cpu :: "data \<Rightarrow> rat" where
  "first_cpu d = (case cpu d of c # _ \<Rightarrow> (case cpu_usage c of Num q \<Rightarrow> q | _ \<Rightarrow> 0) | [] \<Rightarrow> 0)"

definition sample_mem :: mem_data where
  "sample_mem = \<lparr>mem_total_in_kib = Num 16384, mem_used_in_kib = Num 8192, use_percent = Some (Num 50)\<rparr>"

definition sample_snapshot :: data where
  "sample_snapshot =
     \<lparr>last_collection_time = Num 1000, uptime = ''1h'', hostname = Some ''host'', kernel_name = None,
      kernel_version = None, os_version = None, list_of_processes = [],
      cpu = [\<lparr>cpu_usage = Num 42\<rparr>], load_avg = [Num 1], memory = sample_mem, swap = sample_mem,
      disks = [\<lparr>disk_name = ''sda'', mount_point = ''/'', free_space = None, used_space = Some (Num 0),
                total_space = None\<rparr>],
      io = [], local_ip = None, network = \<lparr>rx = Num 0, tx = Num 0, total_rx = Num 0, total_tx = Num 0\<rparr>,
      temperature_sensors = [], list_of_batteries = None, arc = None, gpu = None\<rparr>"

text \<open>The frame a chart draws next, and a live two-series chart of the binder.\<close>

definition shows_frame :: "'c colord_ops \<Rightarrow> series_opts \<Rightarrow> 'c plot_data \<Rightarrow> uplot \<Rightarrow> bool" where
  "shows_frame ops s0 d q \<longleftrightarrow>
     u_frame (draw q) = Some ([pd_x d, pd_y d],
       [series_paint s0, (Some (stroke_string ops (color_or_white ops (pd_color d))),
                          Some (fill_string ops (color_or_white ops (pd_color d))))])"

definition live_sparkline :: "chart_action \<Rightarrow> series_opts \<Rightarrow> chart_world \<Rightarrow> uplot \<Rightarrow> bool" where
  "live_sparkline a s0 w q \<longleftrightarrow>
     plots w (ca_plot a) = Some q \<and> u_alive q \<and> length (u_series q) = 2 \<and> u_series q ! 0 = s0"

lemma update_live_sparkline:
  assumes "live_sparkline a s0 w p"
  shows "\<exists>q. live_sparkline a s0 (uPlotAction_update ops a d w) q \<and> shows_frame ops s0 d q"
proof -
  have "length (u_series p) = Suc (Suc 0)" "u_series p ! 0 = s0"
    using assms by (simp_all add: live_sparkline_def)
  then obtain s1 where "u_series p = [s0, s1]"
    by (auto simp: length_Suc_conv)
  then show ?thesis
    using assms
    by (auto simp: live_sparkline_def shows_frame_def plots_uPlotAction_update draw_def series_paint_def)
qed


lemma follow_colour_snoc:
  "follow_colour ops i a d (ds @ [e]) w =
     (if fst e = i then uPlotAction_update ops a (d\<lparr>pd_color := Some (snd e)\<rparr>) (follow_colour ops i a d ds w)
      else follow_colour ops i a d ds w)"
  by (simp add: follow_colour_def)

lemma follow_colour_live:
  assumes "live_sparkline a s0 w p"
  shows "\<exists>q. live_sparkline a s0 (follow_colour ops i a d ds w) q \<and>
             (\<forall>c. last_seen i ds = Some c \<longrightarrow> shows_frame ops s0 (d\<lparr>pd_color := Some c\<rparr>) q)"
proof (induction ds rule: rev_induct)
  case Nil
  show ?case using assms by (auto simp: follow_colour_def)
next
  case (snoc e ds)
  then obtain q where q: "live_sparkline a s0 (follow_colour ops i a d ds w) q"
    "\<forall>c. last_seen i ds = Some c \<longrightarrow> shows_frame ops s0 (d\<lparr>pd_color := Some c\<rparr>) q"
    by blast
  show ?case
  proof (cases "fst e = i")
    case True
    obtain q' where "live_sparkline a s0 (uPlotAction_update ops a (d\<lparr>pd_color := Some (snd e)\<rparr>)
                       (follow_colour ops i a d ds w)) q'"
      "shows_frame ops s0 (d\<lparr>pd_color := Some (snd e)\<rparr>) q'"
      using update_live_sparkline [OF q(1)] by blast
    then show ?thesis using True by (auto simp: follow_colour_snoc last_seen_append)
  next
    case False
    then show ?thesis using q by (auto simp: follow_colour_snoc last_seen_append)
  qed
qed

lemma saturatedPush_nat:
  "saturatedPush win e (Num (of_nat n)) = Some (take_last n (win @ [e]))"
  using saturatedPush_nonneg [of "of_nat n" win e] by (simp add: take_last_def)

lemma sparkline_feed_live:
  assumes "live_sparkline a s0 w p" "length win \<le> limit"
  shows "\<exists>w' q. sparkline_feed ops a col pick limit ds win w = Some (take_last limit (win @ map pick ds), w') \<and>
           live_sparkline a s0 w' q \<and>
           (ds \<noteq> [] \<longrightarrow> shows_frame ops s0 \<lparr>pd_x = index_axis (length (take_last limit (win @ map pick ds))),
                                    pd_y = take_last limit (win @ map pick ds), pd_color = col\<rparr> q)"
  using assms
proof (induction ds arbitrary: win w p)
  case Nil
  then show ?case by (auto simp: take_last_def)
next
  case (Cons d ds)
  let ?win = "take_last limit (win @ [pick d])"
  let ?d1 = "\<lparr>pd_x = index_axis (length ?win), pd_y = ?win, pd_color = col\<rparr>"
  obtain q1 where q1: "live_sparkline a s0 (uPlotAction_update ops a ?d1 w) q1" "shows_frame ops s0 ?d1 q1"
    using update_live_sparkline [OF Cons.prems(1)] by blast
  have len: "length ?win \<le> limit" by (simp add: take_last_def)
  have eq: "take_last limit (?win @ map pick ds) = take_last limit (win @ map pick (d # ds))"
    by (simp add: take_last_idem_append)
  show ?case
  proof (cases "ds = []")
    case True
    then show ?thesis using q1 by (auto simp: saturatedPush_nat)
  next
    case False
    from Cons.IH [OF q1(1) len] False eq show ?thesis by (simp add: saturatedPush_nat)
  qed
qed

lemma sample_live_sparkline:
  "live_sparkline (snd (uPlotAction tag_colord 0 sample_data empty_world)) \<lparr>s_stroke = None, s_fill = None\<rparr> (fst (uPlotAction tag_colord 0 sample_data empty_world)) (the (plots (fst (uPlotAction tag_colord 0 sample_data empty_world)) (ca_plot (snd (uPlotAction tag_colord 0 sample_data empty_world)))))"
proof -
  obtain w1 a where m: "uPlotAction tag_colord 0 sample_data empty_world = (w1, a)" by fastforce
  note r = uPlotAction_result [OF m]
  have "live_sparkline a \<lparr>s_stroke = None, s_fill = None\<rparr> w1 (the (plots w1 (ca_plot a)))"
    using r by (simp add: live_sparkline_def makePlotOptions_def)
  then show ?thesis using m by simp
qed

text \<open>C28. A chart whose colour follows a theme colour store (the widget re-runs the chart
  binder's \<^verbatim>\<open>update\<close> with each colour delivered to its subscription) draws, at the next
  frame, the stroke and fill derived from the store's current colour, in every reachable
  state of the store.\<close>

theorem theme_colour_reaches_chart:
  assumes "(store_step neq_object)\<^sup>*\<^sup>* (accentColor (theme_init ops)) s" "i \<in> set (w_subs s)"
    and "live_sparkline a s0 w p"
  shows "\<exists>q. plots (flush (follow_colour ops i a d (w_log s) w)) (ca_plot a) = Some (draw q) \<and>
             u_frame (draw q) = Some ([pd_x d, pd_y d],
               [series_paint s0, (Some (stroke_string ops (w_value s)), Some (fill_string ops (w_value s)))])"
proof -
  have "store_inv (accentColor (theme_init ops))" by (rule theme_init_colour_inv) simp
  then have "last_seen i (w_log s) = Some (w_value s)"
    using store_steps_synced [of neq_object, OF _ _ assms(1,2)] by (simp add: neq_object_def)
  then show ?thesis
    using follow_colour_live [OF assms(3), of ops i d "w_log s"]
    by (auto simp: live_sparkline_def shows_frame_def color_or_white_def)
qed

text \<open>C29. Feeding telemetry snapshots one by one into a gauge's bounded window
  (\<^verbatim>\<open>saturatedPush\<close>) and passing the window to the chart binder's \<^verbatim>\<open>update\<close>
  after each one, with a limit at least the window's size, leaves the window holding the
  last \<open>limit\<close> samples in arrival order, and the next frame plots exactly that window
  against its indices, in the colour given to the gauge.\<close>

theorem sparkline_shows_latest_window:
  assumes "live_sparkline a s0 w p" "length win \<le> limit" "ds \<noteq> []"
  shows "\<exists>w' q. sparkline_feed ops a col pick limit ds win w = Some (take_last limit (win @ map pick ds), w') \<and>
           plots (flush w') (ca_plot a) = Some (draw q) \<and>
           u_frame (draw q) = Some ([index_axis (length (take_last limit (win @ map pick ds))),
                                     take_last limit (win @ map pick ds)],
             [series_paint s0, (Some (stroke_string ops (color_or_white ops col)),
                                Some (fill_string ops (color_or_white ops col)))])"
  using sparkline_feed_live [OF assms(1,2), of ops col pick ds] assms(3)
  by (auto simp: live_sparkline_def shows_frame_def)


theorem theme_colour_reaches_chart_witness:
  "(store_step neq_object)\<^sup>*\<^sup>* (accentColor (theme_init tag_colord)) (store_set neq_object ''#f00'' (snd (subscribe (accentColor (theme_init tag_colord))))) \<and> 0 \<in> set (w_subs (store_set neq_object ''#f00'' (snd (subscribe (accentColor (theme_init tag_colord)))))) \<and>
   live_sparkline (snd (uPlotAction tag_colord 0 sample_data empty_world)) \<lparr>s_stroke = None, s_fill = None\<rparr> (fst (uPlotAction tag_colord 0 sample_data empty_world)) (the (plots (fst (uPlotAction tag_colord 0 sample_data empty_world)) (ca_plot (snd (uPlotAction tag_colord 0 sample_data empty_world))))) \<and>
   (\<exists>q. plots (flush (follow_colour tag_colord 0 (snd (uPlotAction tag_colord 0 sample_data empty_world)) sample_data (w_log (store_set neq_object ''#f00'' (snd (subscribe (accentColor (theme_init tag_colord)))))) (fst (uPlotAction tag_colord 0 sample_data empty_world)))) (ca_plot (snd (uPlotAction tag_colord 0 sample_data empty_world))) = Some (draw q) \<and>
        u_frame (draw q) = Some ([[0, 1], [5, 7]], [(None, None), (Some ''#f00/a/l'', Some ''#f00/a/l'')]))"
proof -
  have r: "(store_step neq_object)\<^sup>*\<^sup>* (accentColor (theme_init tag_colord)) (store_set neq_object ''#f00'' (snd (subscribe (accentColor (theme_init tag_colord)))))"
    by (rule rtranclp.rtrancl_into_rtrancl [OF r_into_rtranclp [of "store_step neq_object", OF step_subscribe] step_set])
  have i: "0 \<in> set (w_subs (store_set neq_object ''#f00'' (snd (subscribe (accentColor (theme_init tag_colord))))))"
    by (simp add: store_set_def subscribe_def writable_def neq_object_def theme_init_def)
  have v: "w_value (store_set neq_object ''#f00'' (snd (subscribe (accentColor (theme_init tag_colord))))) = ''#f00''"
    by (simp add: store_set_def subscribe_def writable_def neq_object_def theme_init_def)
  show ?thesis
    using theme_colour_reaches_chart [OF r i sample_live_sparkline, of sample_data, unfolded v] r i
      sample_live_sparkline
    by (simp add: series_paint_def stroke_string_def fill_string_def tag_colord_def sample_data_def)
qed

theorem sparkline_shows_latest_window_witness:
  "live_sparkline (snd (uPlotAction tag_colord 0 sample_data empty_world)) \<lparr>s_stroke = None, s_fill = None\<rparr> (fst (uPlotAction tag_colord 0 sample_data empty_world)) (the (plots (fst (uPlotAction tag_colord 0 sample_data empty_world)) (ca_plot (snd (uPlotAction tag_colord 0 sample_data empty_world))))) \<and> length [1, 2 :: rat] \<le> 2 \<and>
   [sample_snapshot, sample_snapshot] \<noteq> [] \<and>
   (\<exists>w' q. sparkline_feed tag_colord (snd (uPlotAction tag_colord 0 sample_data empty_world)) None first_cpu 2 [sample_snapshot, sample_snapshot] [1, 2] (fst (uPlotAction tag_colord 0 sample_data empty_world))
             = Some ([42, 42], w') \<and>
           plots (flush w') (ca_plot (snd (uPlotAction tag_colord 0 sample_data empty_world))) = Some (draw q) \<and>
           u_frame (draw q) = Some ([[0, 1], [42, 42]], [(None, None), (Some ''#fff/a/l'', Some ''#fff/a/l'')]))"
proof -
  have l: "length [1, 2 :: rat] \<le> 2" and n: "[sample_snapshot, sample_snapshot] \<noteq> []" by simp_all
  have c: "first_cpu sample_snapshot = 42" by (simp add: first_cpu_def sample_snapshot_def)
  show ?thesis
    using sparkline_shows_latest_window [OF sample_live_sparkline l n, of tag_colord None first_cpu]
      sample_live_sparkline
    by (simp add: c take_last_def index_axis_def series_paint_def stroke_string_def fill_string_def
        color_or_white_def tag_colord_def)
qed

end
